theory Spec2Isabelle
  imports Complex_Main "HOL-Library.Sublist" "HOL-Library.AList"
begin

section \<open>Paths\<close>

text \<open>
  A \<^verbatim>\<open>pathlib.Path\<close> is modelled by the list of its components, read from one fixed
  directory (the working directory); \<^verbatim>\<open>Path('.')\<close> is the empty list. File names are
  byte strings compared exactly, as on a POSIX file system.
\<close>

type_synonym bytes = string
type_synonym path = "string list"

text \<open>\<^verbatim>\<open>str.lower()\<close>. Every extension the program compares with is ASCII without
  the letter k, so only the ASCII letters matter and other characters are left alone.\<close>

definition lower_char :: "char \<Rightarrow> char" where
  "lower_char c =
     (case map_of (zip ''ABCDEFGHIJKLMNOPQRSTUVWXYZ'' ''abcdefghijklmnopqrstuvwxyz'') c of
        None \<Rightarrow> c | Some d \<Rightarrow> d)"

definition lower :: "string \<Rightarrow> string" where
  "lower s = map lower_char s"

text \<open>\<^verbatim>\<open>Path.name\<close>: the last component, the empty string for \<^verbatim>\<open>Path('.')\<close>.\<close>

definition path_name :: "path \<Rightarrow> string" where
  "path_name p = (if p = [] then [] else last p)"

text \<open>\<^verbatim>\<open>name.rfind('.')\<close>, with \<open>None\<close> for Python's \<open>-1\<close>.\<close>

definition rfind_dot :: "string \<Rightarrow> nat option" where
  "rfind_dot s =
     (if CHR ''.'' \<in> set s
      then Some (length s - 1 - length (takeWhile (\<lambda>c. c \<noteq> CHR ''.'') (rev s)))
      else None)"

text \<open>\<^verbatim>\<open>Path.suffix\<close>:
  \<^verbatim>\<open>i = name.rfind('.'); return name[i:] if 0 < i < len(name) - 1 else ''\<close>.\<close>

definition name_suffix :: "string \<Rightarrow> string" where
  "name_suffix nm =
     (case rfind_dot nm of
        None \<Rightarrow> []
      | Some i \<Rightarrow> if 0 < i \<and> i < length nm - 1 then drop i nm else [])"

definition path_suffix :: "path \<Rightarrow> string" where
  "path_suffix p = name_suffix (path_name p)"

text \<open>\<^verbatim>\<open>Path.parent\<close>; the parent of \<^verbatim>\<open>Path('.')\<close> is itself.\<close>

definition path_parent :: "path \<Rightarrow> path" where
  "path_parent p = butlast p"

text \<open>\<^verbatim>\<open>Path.with_suffix(suffix)\<close>; \<open>None\<close> stands for the \<^verbatim>\<open>ValueError\<close> raised on an
  invalid suffix or on a path with an empty name.\<close>

definition with_suffix :: "path \<Rightarrow> string \<Rightarrow> path option" where
  "with_suffix p sfx =
     (if CHR ''/'' \<in> set sfx \<or> (sfx \<noteq> [] \<and> hd sfx \<noteq> CHR ''.'') \<or> sfx = ''.'' then None
      else if path_name p = [] then None
      else let nm = path_name p; old = path_suffix p in
        Some (butlast p @ [(if old = [] then nm else take (length nm - length old) nm) @ sfx]))"

text \<open>\<^verbatim>\<open>Path.relative_to(other)\<close>; \<open>None\<close> stands for the \<^verbatim>\<open>ValueError\<close> raised when
  the path does not lie under \<open>other\<close>.\<close>

definition relative_to :: "path \<Rightarrow> path \<Rightarrow> path option" where
  "relative_to p d = (if prefix d p then Some (drop (length d) p) else None)"

text \<open>\<^verbatim>\<open>str(path)\<close>.\<close>

fun path_str :: "path \<Rightarrow> string" where
  "path_str [] = ''.''"
| "path_str [a] = a"
| "path_str (a # b # p) = a @ ''/'' @ path_str (b # p)"


section \<open>The processor registry\<close>

text \<open>The four subclasses of \<^verbatim>\<open>AssetProcessor\<close>, in the order of
  \<^verbatim>\<open>AssetCooker.processors\<close>.\<close>

datatype processor = TextureProcessor | ModelProcessor | AudioProcessor | ShaderProcessor

fun supported_extensions :: "processor \<Rightarrow> string list" where
  "supported_extensions TextureProcessor = [''.png'', ''.jpg'', ''.jpeg'', ''.bmp'', ''.tga'']"
| "supported_extensions ModelProcessor = [''.obj'', ''.gltf'', ''.glb'', ''.fbx'']"
| "supported_extensions AudioProcessor = [''.wav'', ''.mp3'', ''.ogg'', ''.flac'']"
| "supported_extensions ShaderProcessor =
     [''.vert'', ''.frag'', ''.geom'', ''.tesc'', ''.tese'', ''.comp'']"

definition can_process :: "processor \<Rightarrow> path \<Rightarrow> bool" where
  "can_process pr file_path = (lower (path_suffix file_path) \<in> set (supported_extensions pr))"

definition processors :: "processor list" where
  "processors = [TextureProcessor, ModelProcessor, AudioProcessor, ShaderProcessor]"

text \<open>\<^verbatim>\<open>AssetCooker.get_processor\<close>: the first processor of the list that accepts the
  file, \<open>None\<close> when the loop ends without one.\<close>

definition get_processor :: "path \<Rightarrow> processor option" where
  "get_processor file_path = find (\<lambda>pr. can_process pr file_path) processors"


section \<open>The file system\<close>

text \<open>
  A regular file holds bytes; a directory lists its entries in the order in which the
  operating system enumerates them. There are no symbolic links, no permissions and no
  special files, and nothing else changes the tree while the program runs, so an input or
  output operation fails only for the shape of the tree (a missing entry, a file where a
  directory is needed, a directory where a file is needed).
\<close>

datatype node = File bytes | Dir "(string \<times> node) list"

fun lookup :: "node \<Rightarrow> path \<Rightarrow> node option" where
  "lookup nd [] = Some nd"
| "lookup (File b) (n # p) = None"
| "lookup (Dir es) (n # p) = (case map_of es n of None \<Rightarrow> None | Some c \<Rightarrow> lookup c p)"

text \<open>\<^verbatim>\<open>Path.exists()\<close>, \<^verbatim>\<open>Path.is_file()\<close>, \<^verbatim>\<open>Path.is_dir()\<close>.\<close>

definition path_exists :: "node \<Rightarrow> path \<Rightarrow> bool" where
  "path_exists fsys p = (lookup fsys p \<noteq> None)"

definition is_file :: "node \<Rightarrow> path \<Rightarrow> bool" where
  "is_file fsys p = (case lookup fsys p of Some (File b) \<Rightarrow> True | _ \<Rightarrow> False)"

definition is_dir :: "node \<Rightarrow> path \<Rightarrow> bool" where
  "is_dir fsys p = (case lookup fsys p of Some (Dir es) \<Rightarrow> True | _ \<Rightarrow> False)"

text \<open>Opening a path for reading and reading everything; \<open>None\<close> when the path is missing
  or a directory.\<close>

definition read_file :: "node \<Rightarrow> path \<Rightarrow> bytes option" where
  "read_file fsys p = (case lookup fsys p of Some (File b) \<Rightarrow> Some b | _ \<Rightarrow> None)"

text \<open>Opening a path for writing (\<^verbatim>\<open>'w'\<close>, \<^verbatim>\<open>'wb'\<close>) and writing everything: the file is
  created or replaced. \<open>None\<close> when the path is a directory or its parent is not an existing
  directory.\<close>

fun write_file :: "node \<Rightarrow> path \<Rightarrow> bytes \<Rightarrow> node option" where
  "write_file nd [] b = None"
| "write_file (File c) (n # p) b = None"
| "write_file (Dir es) [n] b =
     (case map_of es n of
        Some (Dir ds) \<Rightarrow> None
      | _ \<Rightarrow> Some (Dir (AList.update n (File b) es)))"
| "write_file (Dir es) (n # m # p) b =
     (case map_of es n of
        None \<Rightarrow> None
      | Some c \<Rightarrow>
          (case write_file c (m # p) b of
             None \<Rightarrow> None
           | Some c' \<Rightarrow> Some (Dir (AList.update n c' es))))"

text \<open>A chain of fresh directories, one inside the other.\<close>

fun mkchain :: "path \<Rightarrow> node" where
  "mkchain [] = Dir []"
| "mkchain (n # p) = Dir [(n, mkchain p)]"

text \<open>\<^verbatim>\<open>Path.mkdir(parents=True, exist_ok=True)\<close>: the missing directories of the path are
  created; \<open>None\<close> when the path or one of its ancestors is a regular file, and then nothing
  has been created.\<close>

fun mkdir_p :: "node \<Rightarrow> path \<Rightarrow> node option" where
  "mkdir_p (File b) p = None"
| "mkdir_p (Dir es) [] = Some (Dir es)"
| "mkdir_p (Dir es) (n # p) =
     (case map_of es n of
        None \<Rightarrow> Some (Dir (AList.update n (mkchain p) es))
      | Some c \<Rightarrow>
          (case mkdir_p c p of
             None \<Rightarrow> None
           | Some c' \<Rightarrow> Some (Dir (AList.update n c' es))))"

text \<open>\<^verbatim>\<open>shutil.copy2(src, dst)\<close>: when \<open>dst\<close> is an existing directory the file is copied
  into it under the base name of \<open>src\<close>; copying a file onto itself raises
  \<^verbatim>\<open>SameFileError\<close>. File times and permissions are not part of the model.\<close>

definition copy2 :: "node \<Rightarrow> path \<Rightarrow> path \<Rightarrow> node option" where
  "copy2 fsys src dst =
     (let dst' = (if is_dir fsys dst then dst @ [path_name src] else dst) in
      if src = dst' then None
      else case read_file fsys src of
             None \<Rightarrow> None
           | Some b \<Rightarrow> write_file fsys dst' b)"

datatype py_exception = NotADirectoryError | ValueError

text \<open>\<^verbatim>\<open>Path.iterdir()\<close>: the entries of a directory. The caller has checked that the path
  exists, so the only error left is a path that is a regular file.\<close>

definition iterdir :: "node \<Rightarrow> path \<Rightarrow> py_exception + path list" where
  "iterdir fsys d =
     (case lookup fsys d of
        Some (Dir es) \<Rightarrow> Inr (map (\<lambda>e. d @ [fst e]) es)
      | _ \<Rightarrow> Inl NotADirectoryError)"

text \<open>\<^verbatim>\<open>Path.rglob(pattern)\<close> for a pattern without a separator: the entries (files and
  directories) of the directory whose names match, then the same for each subdirectory in
  turn. The paths of \<open>rglob_node\<close> are relative to the node.\<close>

fun rglob_node :: "(string \<Rightarrow> bool) \<Rightarrow> node \<Rightarrow> path list"
  and rglob_entries :: "(string \<Rightarrow> bool) \<Rightarrow> (string \<times> node) list \<Rightarrow> path list" where
  "rglob_node m (File b) = []"
| "rglob_node m (Dir es) = map (\<lambda>e. [fst e]) (filter (\<lambda>e. m (fst e)) es) @ rglob_entries m es"
| "rglob_entries m [] = []"
| "rglob_entries m (e # es) = map ((#) (fst e)) (rglob_node m (snd e)) @ rglob_entries m es"

text \<open>On a path that is missing or a regular file \<^verbatim>\<open>rglob\<close> yields nothing.\<close>

definition rglob :: "node \<Rightarrow> path \<Rightarrow> (string \<Rightarrow> bool) \<Rightarrow> path list" where
  "rglob fsys d m =
     (case lookup fsys d of
        Some (Dir es) \<Rightarrow> map ((@) d) (rglob_node m (Dir es))
      | _ \<Rightarrow> [])"

text \<open>The patterns \<^verbatim>\<open>'*'\<close> and \<^verbatim>\<open>'*.json'\<close>.\<close>

definition glob_any :: "string \<Rightarrow> bool" where
  "glob_any nm = True"

definition glob_json :: "string \<Rightarrow> bool" where
  "glob_json nm = suffix ''.json'' nm"

text \<open>A tree as a file system holds it: no directory has two entries of one name.\<close>

fun wf_node :: "node \<Rightarrow> bool"
  and wf_entries :: "(string \<times> node) list \<Rightarrow> bool" where
  "wf_node (File b) = True"
| "wf_node (Dir es) = (distinct (map fst es) \<and> wf_entries es)"
| "wf_entries [] = True"
| "wf_entries (e # es) = (wf_node (snd e) \<and> wf_entries es)"


section \<open>Libraries\<close>

text \<open>
  The program calls the JSON module, the imaging library and the text layer of file
  objects. None of them belongs to the repository, so they are parameters of the model and
  every theorem holds for whatever they compute. \<open>None\<close> stands for a raised exception.
  \<^item> \<open>image_open\<close>, \<open>image_convert\<close>, \<open>image_save\<close>: \<^verbatim>\<open>Image.open\<close> on the bytes of a file,
    \<^verbatim>\<open>image.convert(mode)\<close>, and the bytes that \<^verbatim>\<open>image.save(path, format)\<close> writes; the
    pixels are decoded when they are first needed, so saving can raise as well, and it does
    so before the output file is opened;
  \<^item> \<open>json_dump\<close>, \<open>json_load\<close>: the text of \<^verbatim>\<open>json.dump(value, f, indent=2)\<close>, which does not
    fail on the values the program passes to it, and \<^verbatim>\<open>json.load\<close> on the bytes of a file;
  \<^item> \<open>text_decode\<close>, \<open>text_encode\<close>: what \<^verbatim>\<open>f.read()\<close> returns for the bytes of a file opened
    with \<^verbatim>\<open>'r'\<close> (decoding and newline translation), and the bytes that \<^verbatim>\<open>f.write(text)\<close>
    leaves in a file opened with \<^verbatim>\<open>'w'\<close>.
\<close>

datatype json =
    JNull
  | JBool bool
  | JInt int
  | JFloat real
  | JString string
  | JArray "json list"
  | JObject "(string \<times> json) list"

record image =
  img_mode :: string
  img_width :: int
  img_height :: int
  img_data :: bytes

record libs =
  image_open :: "bytes \<Rightarrow> image option"
  image_convert :: "image \<Rightarrow> string \<Rightarrow> image option"
  image_save :: "image \<Rightarrow> string \<Rightarrow> bytes option"
  json_dump :: "json \<Rightarrow> bytes"
  json_load :: "bytes \<Rightarrow> json option"
  text_decode :: "bytes \<Rightarrow> string option"
  text_encode :: "string \<Rightarrow> bytes"

text \<open>Reading a key of a JSON object.\<close>

definition json_get :: "json \<Rightarrow> string \<Rightarrow> json option" where
  "json_get j k = (case j of JObject kvs \<Rightarrow> map_of kvs k | _ \<Rightarrow> None)"


section \<open>The state of a run\<close>

text \<open>The lines the program prints; the text of a caught exception is left out.\<close>

datatype message =
    Processing path
  | NoProcessorFound path
  | Processed processor path path
  | ErrorProcessing processor path
  | InputDirMissing path
  | ErrorReadingMetadata path
  | GeneratedManifest path
  | ErrorGeneratingManifest
  | ProcessingSingleFile path
  | AssetCooked
  | FailedToCook
  | ProcessingDirectory path
  | ProcessingComplete nat nat
  | FailedWarning nat
  | InputPathMissing path

text \<open>
  \<open>tree\<close> is the file system and \<open>stdout\<close> the printed lines. \<open>dispatched\<close> is not
  program state: it records every call \<^verbatim>\<open>processor.process(input_path, output_path)\<close>
  with its arguments, so that theorems can speak about the calls that were made.
\<close>

record world =
  tree :: node
  stdout :: "message list"
  dispatched :: "(processor \<times> path \<times> path) list"

definition print :: "world \<Rightarrow> message \<Rightarrow> world" where
  "print w m = w\<lparr>stdout := stdout w @ [m]\<rparr>"


section \<open>The processors\<close>

text \<open>
  Each \<^verbatim>\<open>process\<close> method is one \<^verbatim>\<open>try\<close> block that returns \<^verbatim>\<open>True\<close> at its end and
  \<^verbatim>\<open>False\<close> from its \<^verbatim>\<open>except Exception\<close> handler. The functions below are the \<^verbatim>\<open>try\<close>
  blocks: they return the flag and the file system as the block left it, which on a failure
  holds whatever had been written before the exception.
\<close>

definition texture_metadata :: "image \<Rightarrow> path \<Rightarrow> json" where
  "texture_metadata img input_path = JObject
     [(''type'', JString ''texture''),
      (''format'', JString ''rgba8''),
      (''width'', JInt (img_width img)),
      (''height'', JInt (img_height img)),
      (''channels'', JInt 4),
      (''mipmaps'', JBool True),
      (''source'', JString (path_str input_path))]"

definition TextureProcessor_process :: "libs \<Rightarrow> path \<Rightarrow> path \<Rightarrow> node \<Rightarrow> bool \<times> node" where
  "TextureProcessor_process L input_path output_path f0 =
     (case read_file f0 input_path of
        None \<Rightarrow> (False, f0)
      | Some b \<Rightarrow>
     (case image_open L b of
        None \<Rightarrow> (False, f0)
      | Some image0 \<Rightarrow>
     (case (if img_mode image0 \<noteq> ''RGBA'' then image_convert L image0 ''RGBA'' else Some image0) of
        None \<Rightarrow> (False, f0)
      | Some img \<Rightarrow>
     (case mkdir_p f0 (path_parent output_path) of
        None \<Rightarrow> (False, f0)
      | Some f1 \<Rightarrow>
     (case image_save L img ''PNG'' of
        None \<Rightarrow> (False, f1)
      | Some png \<Rightarrow>
     (case write_file f1 output_path png of
        None \<Rightarrow> (False, f1)
      | Some f2 \<Rightarrow>
     (case with_suffix output_path ''.json'' of
        None \<Rightarrow> (False, f2)
      | Some metadata_path \<Rightarrow>
     (case write_file f2 metadata_path (json_dump L (texture_metadata img input_path)) of
        None \<Rightarrow> (False, f2)
      | Some f3 \<Rightarrow> (True, f3)))))))))"

definition model_metadata :: "path \<Rightarrow> json" where
  "model_metadata input_path = JObject
     [(''type'', JString ''model''),
      (''format'', JString (drop 1 (lower (path_suffix input_path)))),
      (''source'', JString (path_str input_path)),
      (''animations'', JArray []),
      (''materials'', JArray []),
      (''meshes'', JArray [])]"

definition ModelProcessor_process :: "libs \<Rightarrow> path \<Rightarrow> path \<Rightarrow> node \<Rightarrow> bool \<times> node" where
  "ModelProcessor_process L input_path output_path f0 =
     (case mkdir_p f0 (path_parent output_path) of
        None \<Rightarrow> (False, f0)
      | Some f1 \<Rightarrow>
     (case copy2 f1 input_path output_path of
        None \<Rightarrow> (False, f1)
      | Some f2 \<Rightarrow>
     (case with_suffix output_path ''.json'' of
        None \<Rightarrow> (False, f2)
      | Some metadata_path \<Rightarrow>
     (case write_file f2 metadata_path (json_dump L (model_metadata input_path)) of
        None \<Rightarrow> (False, f2)
      | Some f3 \<Rightarrow> (True, f3)))))"

definition audio_metadata :: "path \<Rightarrow> json" where
  "audio_metadata input_path = JObject
     [(''type'', JString ''audio''),
      (''format'', JString (drop 1 (lower (path_suffix input_path)))),
      (''source'', JString (path_str input_path)),
      (''duration'', JFloat 0),
      (''channels'', JInt 0),
      (''sample_rate'', JInt 0),
      (''bit_depth'', JInt 0)]"

definition AudioProcessor_process :: "libs \<Rightarrow> path \<Rightarrow> path \<Rightarrow> node \<Rightarrow> bool \<times> node" where
  "AudioProcessor_process L input_path output_path f0 =
     (case mkdir_p f0 (path_parent output_path) of
        None \<Rightarrow> (False, f0)
      | Some f1 \<Rightarrow>
     (case copy2 f1 input_path output_path of
        None \<Rightarrow> (False, f1)
      | Some f2 \<Rightarrow>
     (case with_suffix output_path ''.json'' of
        None \<Rightarrow> (False, f2)
      | Some metadata_path \<Rightarrow>
     (case write_file f2 metadata_path (json_dump L (audio_metadata input_path)) of
        None \<Rightarrow> (False, f2)
      | Some f3 \<Rightarrow> (True, f3)))))"

definition type_map :: "(string \<times> string) list" where
  "type_map =
     [(''.vert'', ''vertex''),
      (''.frag'', ''fragment''),
      (''.geom'', ''geometry''),
      (''.tesc'', ''tessellation_control''),
      (''.tese'', ''tessellation_evaluation''),
      (''.comp'', ''compute'')]"

text \<open>\<^verbatim>\<open>ShaderProcessor._get_shader_type\<close>.\<close>

definition get_shader_type :: "string \<Rightarrow> string" where
  "get_shader_type extension =
     (case map_of type_map (lower extension) of None \<Rightarrow> ''unknown'' | Some t \<Rightarrow> t)"

definition shader_metadata :: "path \<Rightarrow> json" where
  "shader_metadata input_path = JObject
     [(''type'', JString ''shader''),
      (''shader_type'', JString (get_shader_type (path_suffix input_path))),
      (''source'', JString (path_str input_path)),
      (''defines'', JArray []),
      (''includes'', JArray [])]"

definition ShaderProcessor_process :: "libs \<Rightarrow> path \<Rightarrow> path \<Rightarrow> node \<Rightarrow> bool \<times> node" where
  "ShaderProcessor_process L input_path output_path f0 =
     (case read_file f0 input_path of
        None \<Rightarrow> (False, f0)
      | Some b \<Rightarrow>
     (case text_decode L b of
        None \<Rightarrow> (False, f0)
      | Some source \<Rightarrow>
     (case mkdir_p f0 (path_parent output_path) of
        None \<Rightarrow> (False, f0)
      | Some f1 \<Rightarrow>
     (case write_file f1 output_path (text_encode L source) of
        None \<Rightarrow> (False, f1)
      | Some f2 \<Rightarrow>
     (case with_suffix output_path ''.json'' of
        None \<Rightarrow> (False, f2)
      | Some metadata_path \<Rightarrow>
     (case write_file f2 metadata_path (json_dump L (shader_metadata input_path)) of
        None \<Rightarrow> (False, f2)
      | Some f3 \<Rightarrow> (True, f3)))))))"

text \<open>The method call \<^verbatim>\<open>processor.process(input_path, output_path)\<close>: the \<^verbatim>\<open>try\<close> block of
  the object's class, then the one line that the block or its handler prints.\<close>

fun try_block :: "processor \<Rightarrow> libs \<Rightarrow> path \<Rightarrow> path \<Rightarrow> node \<Rightarrow> bool \<times> node" where
  "try_block TextureProcessor = TextureProcessor_process"
| "try_block ModelProcessor = ModelProcessor_process"
| "try_block AudioProcessor = AudioProcessor_process"
| "try_block ShaderProcessor = ShaderProcessor_process"

definition process :: "libs \<Rightarrow> processor \<Rightarrow> path \<Rightarrow> path \<Rightarrow> world \<Rightarrow> bool \<times> world" where
  "process L pr input_path output_path w =
     (case try_block pr L input_path output_path (tree w) of
        (ok, f) \<Rightarrow>
          (ok, print (w\<lparr>tree := f\<rparr>)
                 (if ok then Processed pr input_path output_path
                  else ErrorProcessing pr input_path)))"


section \<open>The cooker\<close>

text \<open>\<^verbatim>\<open>AssetCooker.cook_asset\<close>.\<close>

definition cook_asset :: "libs \<Rightarrow> path \<Rightarrow> path \<Rightarrow> world \<Rightarrow> bool \<times> world" where
  "cook_asset L input_path output_path w =
     (case get_processor input_path of
        None \<Rightarrow> (False, print w (NoProcessorFound input_path))
      | Some pr \<Rightarrow>
          process L pr input_path output_path
            (w\<lparr>dispatched := dispatched w @ [(pr, input_path, output_path)]\<rparr>))"

text \<open>The list \<^verbatim>\<open>files\<close> of \<^verbatim>\<open>cook_directory\<close>, built before the loop starts.\<close>

definition files_to_process :: "node \<Rightarrow> path \<Rightarrow> bool \<Rightarrow> py_exception + path list" where
  "files_to_process fsys input_dir recursive =
     (if recursive then Inr (filter (is_file fsys) (rglob fsys input_dir glob_any))
      else case iterdir fsys input_dir of
             Inl e \<Rightarrow> Inl e
           | Inr entries \<Rightarrow> Inr (filter (is_file fsys) entries))"

text \<open>The loop \<^verbatim>\<open>for file_path in files\<close> with its two counters.\<close>

fun cook_files ::
  "libs \<Rightarrow> path \<Rightarrow> path \<Rightarrow> path list \<Rightarrow> nat \<times> nat \<Rightarrow> world
     \<Rightarrow> py_exception + ((nat \<times> nat) \<times> world)" where
  "cook_files L input_dir output_dir [] counts w = Inr (counts, w)"
| "cook_files L input_dir output_dir (file_path # files) (processed_count, failed_count) w =
     (case relative_to file_path input_dir of
        None \<Rightarrow> Inl ValueError
      | Some rel_path \<Rightarrow>
          (let output_path = output_dir @ rel_path in
           if path_suffix file_path = ''.json''
           then cook_files L input_dir output_dir files (processed_count, failed_count) w
           else
             (case cook_asset L file_path output_path (print w (Processing file_path)) of
                (ok, w') \<Rightarrow>
                  if ok
                  then cook_files L input_dir output_dir files
                         (processed_count + 1, failed_count) w'
                  else cook_files L input_dir output_dir files
                         (processed_count, failed_count + 1) w')))"

text \<open>\<^verbatim>\<open>AssetCooker.cook_directory\<close>.\<close>

definition cook_directory ::
  "libs \<Rightarrow> path \<Rightarrow> path \<Rightarrow> bool \<Rightarrow> world \<Rightarrow> py_exception + ((nat \<times> nat) \<times> world)" where
  "cook_directory L input_dir output_dir recursive w =
     (if \<not> path_exists (tree w) input_dir
      then Inr ((0, 0), print w (InputDirMissing input_dir))
      else case files_to_process (tree w) input_dir recursive of
             Inl e \<Rightarrow> Inl e
           | Inr files \<Rightarrow> cook_files L input_dir output_dir files (0, 0) w)"


section \<open>The manifest\<close>

text \<open>The inner \<^verbatim>\<open>try\<close> block of \<^verbatim>\<open>generate_asset_manifest\<close>: the record read from one
  metadata file with its \<^verbatim>\<open>path\<close> key set, \<open>None\<close> when anything in the block raises
  (the file cannot be read or parsed, or the parsed value is not an object).\<close>

definition read_metadata :: "libs \<Rightarrow> node \<Rightarrow> path \<Rightarrow> path \<Rightarrow> json option" where
  "read_metadata L fsys output_dir metadata_file =
     (case read_file fsys metadata_file of
        None \<Rightarrow> None
      | Some b \<Rightarrow>
     (case json_load L b of
        None \<Rightarrow> None
      | Some metadata \<Rightarrow>
     (case with_suffix metadata_file [] of
        None \<Rightarrow> None
      | Some asset_file \<Rightarrow>
     (case relative_to asset_file output_dir of
        None \<Rightarrow> None
      | Some rel \<Rightarrow>
     (case metadata of
        JObject kvs \<Rightarrow> Some (JObject (AList.update ''path'' (JString (path_str rel)) kvs))
      | _ \<Rightarrow> None)))))"

text \<open>The loop over \<^verbatim>\<open>output_dir.rglob('*.json')\<close>; it only reads the file system.\<close>

fun collect_metadata ::
  "libs \<Rightarrow> node \<Rightarrow> path \<Rightarrow> path list \<Rightarrow> json list \<Rightarrow> message list
     \<Rightarrow> json list \<times> message list" where
  "collect_metadata L fsys output_dir [] assets out = (assets, out)"
| "collect_metadata L fsys output_dir (metadata_file # rest) assets out =
     (if path_name metadata_file = ''manifest.json''
      then collect_metadata L fsys output_dir rest assets out
      else case read_metadata L fsys output_dir metadata_file of
             None \<Rightarrow>
               collect_metadata L fsys output_dir rest assets
                 (out @ [ErrorReadingMetadata metadata_file])
           | Some metadata \<Rightarrow>
               collect_metadata L fsys output_dir rest (assets @ [metadata]) out)"

definition manifest_of :: "json list \<Rightarrow> json" where
  "manifest_of assets = JObject
     [(''version'', JString ''1.0''),
      (''asset_count'', JInt (int (length assets))),
      (''assets'', JArray assets)]"

text \<open>\<^verbatim>\<open>AssetCooker.generate_asset_manifest\<close>.\<close>

definition generate_asset_manifest :: "libs \<Rightarrow> path \<Rightarrow> world \<Rightarrow> bool \<times> world" where
  "generate_asset_manifest L output_dir w =
     (case collect_metadata L (tree w) output_dir
             (rglob (tree w) output_dir glob_json) [] (stdout w) of
        (assets, out) \<Rightarrow>
          (let manifest_path = output_dir @ [''manifest.json''] in
           case write_file (tree w) manifest_path (json_dump L (manifest_of assets)) of
             None \<Rightarrow> (False, w\<lparr>stdout := out @ [ErrorGeneratingManifest]\<rparr>)
           | Some f \<Rightarrow>
               (True, w\<lparr>tree := f, stdout := out @ [GeneratedManifest manifest_path]\<rparr>)))"


section \<open>The command line\<close>

record args =
  arg_input :: path
  arg_output :: path
  arg_recursive :: bool
  arg_generate_manifest :: bool
  arg_force :: bool
  arg_verbose :: bool

text \<open>\<^verbatim>\<open>main\<close> after argument parsing; the number is the exit status of the process,
  0 when \<^verbatim>\<open>main\<close> returns and 1 for \<^verbatim>\<open>sys.exit(1)\<close>.\<close>

definition main :: "libs \<Rightarrow> args \<Rightarrow> world \<Rightarrow> py_exception + (nat \<times> world)" where
  "main L a w =
     (if is_file (tree w) (arg_input a) then
        (case cook_asset L (arg_input a) (arg_output a)
                (if arg_verbose a then print w (ProcessingSingleFile (arg_input a)) else w) of
           (success, w') \<Rightarrow>
             if success then Inr (0, print w' AssetCooked)
             else Inr (1, print w' FailedToCook))
      else if is_dir (tree w) (arg_input a) then
        (case cook_directory L (arg_input a) (arg_output a) (arg_recursive a)
                (if arg_verbose a then print w (ProcessingDirectory (arg_input a)) else w) of
           Inl e \<Rightarrow> Inl e
         | Inr ((processed, failed), w') \<Rightarrow>
             (let w1 = print w' (ProcessingComplete processed failed);
                  w2 = (if arg_generate_manifest a
                        then snd (generate_asset_manifest L (arg_output a) w1) else w1)
              in if failed > 0 then Inr (1, print w2 (FailedWarning failed))
                 else Inr (0, w2)))
      else Inr (1, print w (InputPathMissing (arg_input a))))"


section \<open>Observations\<close>

text \<open>The files announced by a \<^verbatim>\<open>Processing:\<close> line, in the order of the lines.\<close>

fun visited :: "message list \<Rightarrow> path list" where
  "visited [] = []"
| "visited (Processing p # ms) = p # visited ms"
| "visited (m # ms) = visited ms"

text \<open>The file re-rooted under the output directory, as the specification words it:
  the output directory joined with the path of the file relative to the input directory.\<close>

definition rerooted :: "path \<Rightarrow> path \<Rightarrow> path \<Rightarrow> path" where
  "rerooted input_dir output_dir file_path = output_dir @ drop (length input_dir) file_path"

text \<open>The call that the walk owes to one file: none when no processor accepts it.\<close>

definition call_for :: "path \<Rightarrow> path \<Rightarrow> path \<Rightarrow> (processor \<times> path \<times> path) list" where
  "call_for input_dir output_dir file_path =
     (case get_processor file_path of
        None \<Rightarrow> []
      | Some pr \<Rightarrow> [(pr, file_path, rerooted input_dir output_dir file_path)])"

text \<open>A file bears the extension of the metadata files.\<close>

definition is_sidecar :: "path \<Rightarrow> bool" where
  "is_sidecar file_path = (path_suffix file_path = ''.json'')"

text \<open>What the specification says of one metadata file: it is parsed, and a record that
  parsed gets its output-relative path attached, which is the path of the metadata file
  with the metadata extension stripped, relative to the output directory. A record is a
  JSON object; a file that cannot be read, does not parse or holds another kind of value
  gives no record.\<close>

definition parsed_record :: "libs \<Rightarrow> node \<Rightarrow> path \<Rightarrow> (string \<times> json) list option" where
  "parsed_record L fsys metadata_file =
     (case read_file fsys metadata_file of
        None \<Rightarrow> None
      | Some b \<Rightarrow> (case json_load L b of Some (JObject kvs) \<Rightarrow> Some kvs | _ \<Rightarrow> None))"

definition asset_path :: "path \<Rightarrow> path \<Rightarrow> path" where
  "asset_path output_dir metadata_file =
     drop (length output_dir)
       (butlast metadata_file @
        [take (length (last metadata_file) - length (name_suffix (last metadata_file)))
           (last metadata_file)])"

definition asset_record :: "libs \<Rightarrow> node \<Rightarrow> path \<Rightarrow> path \<Rightarrow> json option" where
  "asset_record L fsys output_dir metadata_file =
     (case parsed_record L fsys metadata_file of
        None \<Rightarrow> None
      | Some kvs \<Rightarrow>
          Some (JObject (AList.update ''path''
                  (JString (path_str (asset_path output_dir metadata_file))) kvs)))"

text \<open>The metadata files that the manifest loop does not skip.\<close>

definition manifest_sources :: "node \<Rightarrow> path \<Rightarrow> path list" where
  "manifest_sources fsys output_dir =
     filter (\<lambda>m. path_name m \<noteq> ''manifest.json'') (rglob fsys output_dir glob_json)"


section \<open>A small instance of the libraries\<close>

text \<open>
  For running the model on concrete inputs: a JSON writer without indentation or escapes,
  a JSON reader that knows the empty object only, an image reader that knows one image,
  and text files that are their own bytes.
\<close>

fun show_nat :: "nat \<Rightarrow> string" where
  "show_nat n =
     (if n < 10 then [''0123456789'' ! n]
      else show_nat (n div 10) @ [''0123456789'' ! (n mod 10)])"

declare show_nat.simps [simp del]

fun show_json :: "json \<Rightarrow> string"
  and show_items :: "json list \<Rightarrow> string"
  and show_members :: "(string \<times> json) list \<Rightarrow> string" where
  "show_json JNull = ''null''"
| "show_json (JBool b) = (if b then ''true'' else ''false'')"
| "show_json (JInt i) = (if i < 0 then ''-'' else []) @ show_nat (nat \<bar>i\<bar>)"
| "show_json (JFloat r) = (if r = 0 then ''0.0'' else ''?'')"
| "show_json (JString s) = ''\"'' @ s @ ''\"''"
| "show_json (JArray js) = ''['' @ show_items js @ '']''"
| "show_json (JObject kvs) = ''{'' @ show_members kvs @ ''}''"
| "show_items [] = []"
| "show_items [j] = show_json j"
| "show_items (j # k # js) = show_json j @ '', '' @ show_items (k # js)"
| "show_members [] = []"
| "show_members [kv] = ''\"'' @ fst kv @ ''\": '' @ show_json (snd kv)"
| "show_members (kv # kv' # kvs) =
     ''\"'' @ fst kv @ ''\": '' @ show_json (snd kv) @ '', '' @ show_members (kv' # kvs)"

definition demo_libs :: libs where
  "demo_libs =
     \<lparr>image_open = (\<lambda>b. if b = ''img'' then
                          Some \<lparr>img_mode = ''RGB'', img_width = 2, img_height = 2, img_data = b\<rparr>
                        else None),
      image_convert = (\<lambda>img m. Some (img\<lparr>img_mode := m\<rparr>)),
      image_save = (\<lambda>img fmt. Some (img_data img)),
      json_dump = show_json,
      json_load = (\<lambda>b. if b = ''{}'' then Some (JObject []) else None),
      text_decode = Some,
      text_encode = (\<lambda>s. s)\<rparr>"

definition world0 :: "node \<Rightarrow> world" where
  "world0 t = \<lparr>tree = t, stdout = [], dispatched = []\<rparr>"

text \<open>Two input directories: one with a texture, a metadata file, a file of an unknown
  kind and a shader in a subdirectory, and one that holds a metadata file only.\<close>

definition entries1 :: "(string \<times> node) list" where
  "entries1 = [(''a.png'', File ''img''),
               (''a.json'', File ''{}''),
               (''c.xyz'', File ''zz''),
               (''sub'', Dir [(''b.frag'', File ''void main(){}'')])]"

definition tree1 :: node where
  "tree1 = Dir [(''in'', Dir entries1)]"

definition tree2 :: node where
  "tree2 = Dir [(''in'', Dir [(''notes.json'', File ''{}'')])]"

text \<open>A model, a sound, a texture and a shader next to an existing directory \<^verbatim>\<open>out\<close>; an
  input directory with a model, a sound and a shader; an output directory whose only
  metadata file is named \<^verbatim>\<open>manifest.json.json\<close>; and an output directory with two metadata files that parse, one
  that does not, and an old manifest.\<close>

definition tree3 :: node where
  "tree3 = Dir [(''m.obj'', File ''v 0 0 0''), (''s.wav'', File ''RIFF''),
                (''t.png'', File ''img''), (''b.frag'', File ''void main(){}''),
                (''out'', Dir [])]"

definition tree4 :: node where
  "tree4 = Dir [(''in'', Dir [(''m.obj'', File ''v 0 0 0''), (''s.wav'', File ''RIFF''),
                              (''b.frag'', File ''void main(){}'')])]"

definition tree5 :: node where
  "tree5 = Dir [(''out'', Dir [(''manifest.json.json'', File ''{}'')])]"

definition tree6 :: node where
  "tree6 = Dir [(''out'', Dir [(''a.json'', File ''{}''),
                               (''bad.json'', File ''not json''),
                               (''manifest.json'', File ''old''),
                               (''sub'', Dir [(''b.json'', File ''{}'')])])]"


section \<open>Properties of paths\<close>

lemma lower_char_idem: "lower_char (lower_char c) = lower_char c"
  by (simp add: lower_char_def)

lemma lower_idem: "lower (lower s) = lower s"
  by (simp add: lower_def lower_char_idem)

lemma lower_char_dot: "(lower_char c = CHR ''.'') = (c = CHR ''.'')"
  by (simp add: lower_char_def)

lemma length_lower: "length (lower s) = length s"
  by (simp add: lower_def)

lemma rfind_dot_cong:
  assumes "map (\<lambda>c. c = CHR ''.'') s' = map (\<lambda>c. c = CHR ''.'') s"
  shows "rfind_dot s' = rfind_dot s"
proof -
  have len: "length s' = length s"
    using assms by (metis length_map)
  have mem: "(CHR ''.'' \<in> set s') = (CHR ''.'' \<in> set s)"
  proof -
    have "(CHR ''.'' \<in> set t) = (True \<in> set (map (\<lambda>c. c = CHR ''.'') t))" for t
      by auto
    then show ?thesis using assms by metis
  qed
  have tw: "length (takeWhile (\<lambda>c. c \<noteq> CHR ''.'') (rev t))
        = length (takeWhile (\<lambda>b. \<not> b) (rev (map (\<lambda>c. c = CHR ''.'') t)))" for t
    by (simp add: rev_map takeWhile_map comp_def)
  show ?thesis
    unfolding rfind_dot_def using len mem tw assms by simp
qed

lemma name_suffix_drop:
  "name_suffix nm = drop (length nm - length (name_suffix nm)) nm"
  by (auto simp: name_suffix_def rfind_dot_def split: option.splits if_splits)

lemma name_stem_suffix:
  "take (length nm - length (name_suffix nm)) nm @ name_suffix nm = nm"
  by (metis append_take_drop_id name_suffix_drop)

lemma name_suffix_lower_tail:
  "name_suffix (take (length nm - length (name_suffix nm)) nm @ lower (name_suffix nm))
     = lower (name_suffix nm)"
proof -
  let ?k = "length nm - length (name_suffix nm)"
  let ?nm' = "take ?k nm @ lower (name_suffix nm)"
  have eq: "?nm' = take ?k nm @ lower (drop ?k nm)"
    using name_suffix_drop [of nm] by simp
  have dots: "map (\<lambda>c. c = CHR ''.'') ?nm' = map (\<lambda>c. c = CHR ''.'') nm"
  proof -
    have "map (\<lambda>c. c = CHR ''.'') (take ?k nm @ lower (drop ?k nm))
        = map (\<lambda>c. c = CHR ''.'') (take ?k nm) @ map (\<lambda>c. c = CHR ''.'') (drop ?k nm)"
      by (simp add: lower_def lower_char_dot comp_def)
    also have "\<dots> = map (\<lambda>c. c = CHR ''.'') (take ?k nm @ drop ?k nm)"
      by (simp only: map_append)
    also have "\<dots> = map (\<lambda>c. c = CHR ''.'') nm"
      by (simp only: append_take_drop_id)
    finally show ?thesis using eq by (simp only:)
  qed
  have rf: "rfind_dot ?nm' = rfind_dot nm"
    by (rule rfind_dot_cong [OF dots])
  have len: "length ?nm' = length nm"
    using dots by (metis length_map)
  show ?thesis
  proof (cases "rfind_dot nm")
    case None
    then show ?thesis using rf by (simp add: name_suffix_def lower_def)
  next
    case (Some i)
    show ?thesis
    proof (cases "0 < i \<and> i < length nm - 1")
      case True
      then have s: "name_suffix nm = drop i nm" using Some by (simp add: name_suffix_def)
      then have k: "?k = i" using True by (simp add: less_imp_le_nat) arith
      have "name_suffix ?nm' = drop i ?nm'"
        using rf Some True len by (simp add: name_suffix_def)
      also have "\<dots> = lower (drop i nm)"
        using k s True by (simp add: lower_def)
      finally show ?thesis using s by simp
    next
      case False
      then have s: "name_suffix nm = []" using Some by (auto simp: name_suffix_def)
      have "name_suffix ?nm' = []"
        using rf Some False len by (auto simp: name_suffix_def)
      then show ?thesis using s by (simp add: lower_def)
    qed
  qed
qed

lemma path_suffix_with_lower_suffix:
  assumes "with_suffix p (lower (path_suffix p)) = Some q"
  shows "path_suffix q = lower (path_suffix p)"
proof -
  let ?nm = "path_name p"
  have q: "q = butlast p @ [take (length ?nm - length (name_suffix ?nm)) ?nm @ lower (name_suffix ?nm)]"
    using assms
    by (auto simp: with_suffix_def path_suffix_def Let_def lower_def split: if_splits)
  then have "path_name q = take (length ?nm - length (name_suffix ?nm)) ?nm @ lower (name_suffix ?nm)"
    by (simp add: path_name_def)
  then show ?thesis
    by (simp add: path_suffix_def name_suffix_lower_tail)
qed

lemma get_processor_cong:
  "lower (path_suffix p) = lower (path_suffix q) \<Longrightarrow> get_processor p = get_processor q"
  by (simp add: get_processor_def can_process_def)


section \<open>Properties of the file system\<close>

lemma map_of_update: "map_of (AList.update k v al) = (map_of al)(k \<mapsto> v)"
  by (rule AList.update_conv')

lemma lookup_File: "lookup (File b) p = (if p = [] then Some (File b) else None)"
  by (cases p) auto

lemma write_file_lookup_same:
  "write_file f p b = Some f' \<Longrightarrow> lookup f' p = Some (File b)"
proof (induction f p b arbitrary: f' rule: write_file.induct)
  case (1 nd b)
  then show ?case by simp
next
  case (2 c n p b)
  then show ?case by simp
next
  case (3 es n b)
  then show ?case
    by (auto simp: map_of_update split: option.splits node.splits)
next
  case (4 es n m p b)
  then show ?case
    by (auto simp: map_of_update split: option.splits)
qed

lemma write_file_lookup_other:
  "write_file f q b = Some f' \<Longrightarrow> \<not> prefix p q \<Longrightarrow> lookup f' p = lookup f p"
proof (induction f q b arbitrary: f' p rule: write_file.induct)
  case (1 nd b)
  then show ?case by simp
next
  case (2 c n p b)
  then show ?case by simp
next
  case (3 es n b)
  then show ?case
    by (cases p) (auto simp: map_of_update lookup_File split: option.splits node.splits)
next
  case (4 es n m q b)
  then show ?case
    by (cases p) (auto simp: map_of_update split: option.splits)
qed

lemma write_file_not_dir:
  "write_file f q b = Some f' \<Longrightarrow> lookup f q \<noteq> Some (Dir ds)"
proof (induction f q b arbitrary: f' rule: write_file.induct)
  case (3 es n b)
  then show ?case by (auto split: option.splits node.splits)
next
  case (4 es n m p b)
  then show ?case by (auto split: option.splits)
qed auto

lemma write_file_kind_prefix:
  "write_file f q b = Some f' \<Longrightarrow> prefix p q \<Longrightarrow> p \<noteq> q \<Longrightarrow>
     (\<exists>es. lookup f p = Some (Dir es)) \<and> (\<exists>es. lookup f' p = Some (Dir es))"
proof (induction f q b arbitrary: f' p rule: write_file.induct)
  case (1 nd b)
  then show ?case by simp
next
  case (2 c n p b)
  then show ?case by simp
next
  case (3 es n b)
  then show ?case
    by (cases p) (auto simp: map_of_update split: option.splits node.splits)
next
  case (4 es n m q b)
  show ?case
  proof (cases p)
    case Nil
    then show ?thesis using 4 by (auto split: option.splits)
  next
    case (Cons a p')
    then show ?thesis using 4
      by (auto simp: map_of_update split: option.splits)
  qed
qed

lemma write_file_read_same:
  "write_file f p b = Some f' \<Longrightarrow> read_file f' p = Some b"
  by (simp add: read_file_def write_file_lookup_same)

lemma write_file_read_other:
  assumes "write_file f q b = Some f'" and "p \<noteq> q"
  shows "read_file f' p = read_file f p"
proof (cases "prefix p q")
  case True
  then show ?thesis
    using write_file_kind_prefix [OF assms(1) True assms(2)]
    by (auto simp: read_file_def)
next
  case False
  then show ?thesis
    using write_file_lookup_other [OF assms(1) False] by (simp add: read_file_def)
qed

lemma write_file_is_dir:
  assumes "write_file f q b = Some f'"
  shows "is_dir f' p = is_dir f p"
proof (cases "prefix p q")
  case True
  show ?thesis
  proof (cases "p = q")
    case True
    have "lookup f' q = Some (File b)" by (rule write_file_lookup_same [OF assms])
    moreover have "\<not> is_dir f q"
      using write_file_not_dir [OF assms]
      by (auto simp: is_dir_def split: option.splits node.splits)
    ultimately show ?thesis using True by (simp add: is_dir_def)
  next
    case False
    then show ?thesis
      using write_file_kind_prefix [OF assms True False]
      by (auto simp: is_dir_def)
  qed
next
  case False
  then show ?thesis
    using write_file_lookup_other [OF assms False] by (simp add: is_dir_def)
qed

lemma lookup_mkchain:
  "lookup (mkchain d) p = (if prefix p d then Some (mkchain (drop (length p) d)) else None)"
proof (induction d arbitrary: p)
  case Nil
  then show ?case by (cases p) auto
next
  case (Cons n d)
  then show ?case by (cases p) auto
qed

lemma mkdir_p_lookup_other:
  "mkdir_p f d = Some f' \<Longrightarrow> \<not> prefix p d \<Longrightarrow> lookup f' p = lookup f p"
proof (induction f d arbitrary: f' p rule: mkdir_p.induct)
  case (1 b p)
  then show ?case by simp
next
  case (2 es)
  then show ?case by simp
next
  case (3 es n d)
  show ?case
  proof (cases p)
    case Nil
    then show ?thesis using 3 by simp
  next
    case (Cons a p')
    then show ?thesis using 3
      by (auto simp: map_of_update lookup_mkchain split: option.splits)
  qed
qed

lemma mkdir_p_lookup_prefix:
  "mkdir_p f d = Some f' \<Longrightarrow> prefix p d \<Longrightarrow>
     (\<exists>es. lookup f' p = Some (Dir es)) \<and> (\<forall>b. lookup f p \<noteq> Some (File b))"
proof (induction f d arbitrary: f' p rule: mkdir_p.induct)
  case (1 b p)
  then show ?case by simp
next
  case (2 es)
  then show ?case by auto
next
  case (3 es n d)
  show ?case
  proof (cases p)
    case Nil
    then show ?thesis using 3 by (auto split: option.splits)
  next
    case (Cons a p')
    then show ?thesis using 3
      by (cases "drop (length p') d")
         (auto simp: map_of_update lookup_mkchain split: option.splits)
  qed
qed

lemma mkdir_p_read:
  assumes "mkdir_p f d = Some f'"
  shows "read_file f' p = read_file f p"
proof (cases "prefix p d")
  case True
  then show ?thesis
    using mkdir_p_lookup_prefix [OF assms True]
    by (auto simp: read_file_def split: option.splits node.splits)
next
  case False
  then show ?thesis
    using mkdir_p_lookup_other [OF assms False] by (simp add: read_file_def)
qed

lemma mkdir_p_parent_is_dir:
  assumes "mkdir_p f (path_parent p) = Some f'"
  shows "is_dir f' p = is_dir f p"
proof (cases "p = []")
  case True
  then show ?thesis using assms
    by (cases f) (auto simp: path_parent_def)
next
  case False
  then have "\<not> prefix p (path_parent p)"
    by (metis path_parent_def length_butlast prefix_length_le diff_less length_greater_0_conv
        less_numeral_extra(1) not_less)
  then show ?thesis
    using mkdir_p_lookup_other [OF assms] by (simp add: is_dir_def)
qed

lemma write_file_succeeds:
  "is_dir f d \<Longrightarrow> \<not> is_dir f (d @ [n]) \<Longrightarrow> \<exists>f'. write_file f (d @ [n]) b = Some f'"
proof (induction d arbitrary: f)
  case Nil
  then show ?case
    by (cases f) (auto simp: is_dir_def split: option.splits node.splits)
next
  case (Cons a d)
  show ?case
  proof (cases f)
    case (File c)
    then show ?thesis using Cons.prems by (simp add: is_dir_def)
  next
    case (Dir es)
    show ?thesis
    proof (cases "map_of es a")
      case None
      then show ?thesis using Cons.prems Dir by (simp add: is_dir_def)
    next
      case (Some c)
      have 1: "is_dir c d" using Cons.prems(1) Dir Some by (simp add: is_dir_def)
      have 2: "\<not> is_dir c (d @ [n])" using Cons.prems(2) Dir Some by (simp add: is_dir_def)
      obtain c' where "write_file c (d @ [n]) b = Some c'"
        using Cons.IH [OF 1 2] by blast
      moreover obtain m q where "d @ [n] = m # q" by (cases "d @ [n]") auto
      ultimately show ?thesis using Dir Some by simp
    qed
  qed
qed


section \<open>Properties of the walk\<close>

lemma visited_append: "visited (xs @ ys) = visited xs @ visited ys"
  by (induction xs rule: visited.induct) auto

lemma process_effect:
  assumes "process L pr i o' w = (ok, w')"
  shows "visited (stdout w') = visited (stdout w) \<and> dispatched w' = dispatched w"
  using assms
  by (auto simp: process_def print_def visited_append split: prod.splits if_splits)

lemma cook_asset_effect:
  assumes "cook_asset L x o' w = (ok, w')"
  shows "visited (stdout w') = visited (stdout w) \<and>
         dispatched w' = dispatched w @
           (case get_processor x of None \<Rightarrow> [] | Some pr \<Rightarrow> [(pr, x, o')])"
proof (cases "get_processor x")
  case None
  then show ?thesis using assms
    by (auto simp: cook_asset_def print_def visited_append)
next
  case (Some pr)
  then have "process L pr x o' (w\<lparr>dispatched := dispatched w @ [(pr, x, o')]\<rparr>) = (ok, w')"
    using assms by (simp add: cook_asset_def)
  from process_effect [OF this] show ?thesis using Some by simp
qed

lemma cook_files_walk:
  assumes "\<forall>x \<in> set files. prefix ind x"
  shows "\<exists>p' f' w'.
           cook_files L ind outd files (p, f) w = Inr ((p', f'), w') \<and>
           p' + f' = p + f + length (filter (\<lambda>x. \<not> is_sidecar x) files) \<and>
           visited (stdout w') = visited (stdout w) @ filter (\<lambda>x. \<not> is_sidecar x) files \<and>
           dispatched w' = dispatched w @
             concat (map (call_for ind outd) (filter (\<lambda>x. \<not> is_sidecar x) files))"
  using assms
proof (induction files arbitrary: p f w)
  case Nil
  then show ?case by simp
next
  case (Cons x files)
  have pre: "prefix ind x" and rest: "\<forall>y \<in> set files. prefix ind y"
    using Cons.prems by auto
  have rel: "relative_to x ind = Some (drop (length ind) x)"
    using pre by (simp add: relative_to_def)
  show ?case
  proof (cases "is_sidecar x")
    case True
    then show ?thesis
      using Cons.IH [OF rest, of p f w] rel by (simp add: is_sidecar_def)
  next
    case False
    obtain ok w1 where ca:
      "cook_asset L x (outd @ drop (length ind) x) (print w (Processing x)) = (ok, w1)"
      by (cases "cook_asset L x (outd @ drop (length ind) x) (print w (Processing x))")
    from cook_asset_effect [OF ca]
    have v1: "visited (stdout w1) = visited (stdout w) @ [x]"
      and d1: "dispatched w1 = dispatched w @ call_for ind outd x"
      by (auto simp: print_def visited_append call_for_def rerooted_def split: option.splits)
    show ?thesis
    proof (cases ok)
      case True
      obtain p' f' w' where
        "cook_files L ind outd files (p + 1, f) w1 = Inr ((p', f'), w')"
        "p' + f' = p + 1 + f + length (filter (\<lambda>x. \<not> is_sidecar x) files)"
        "visited (stdout w') = visited (stdout w1) @ filter (\<lambda>x. \<not> is_sidecar x) files"
        "dispatched w' = dispatched w1 @
             concat (map (call_for ind outd) (filter (\<lambda>x. \<not> is_sidecar x) files))"
        using Cons.IH [OF rest, of "p + 1" f w1] by blast
      then show ?thesis
        using False True rel ca v1 d1 by (simp add: is_sidecar_def)
    next
      case no: False
      obtain p' f' w' where
        "cook_files L ind outd files (p, f + 1) w1 = Inr ((p', f'), w')"
        "p' + f' = p + (f + 1) + length (filter (\<lambda>x. \<not> is_sidecar x) files)"
        "visited (stdout w') = visited (stdout w1) @ filter (\<lambda>x. \<not> is_sidecar x) files"
        "dispatched w' = dispatched w1 @
             concat (map (call_for ind outd) (filter (\<lambda>x. \<not> is_sidecar x) files))"
        using Cons.IH [OF rest, of p "f + 1" w1] by blast
      then show ?thesis
        using False no rel ca v1 d1 by (simp add: is_sidecar_def)
    qed
  qed
qed

lemma rglob_prefix: "x \<in> set (rglob fsys d m) \<Longrightarrow> prefix d x"
  by (auto simp: rglob_def split: option.splits node.splits)

lemma files_to_process_dir:
  assumes "is_dir fsys ind"
  shows "\<exists>files. files_to_process fsys ind recursive = Inr files \<and>
           (\<forall>x \<in> set files. prefix ind x \<and> is_file fsys x)"
  using assms
  by (auto simp: files_to_process_def iterdir_def is_dir_def rglob_prefix
           split: option.splits node.splits)

lemma cook_directory_walk:
  assumes "is_dir (tree w) ind"
  shows "\<exists>files p f w'.
           files_to_process (tree w) ind recursive = Inr files \<and>
           cook_directory L ind outd recursive w = Inr ((p, f), w') \<and>
           p + f = length (filter (\<lambda>x. \<not> is_sidecar x) files) \<and>
           visited (stdout w') = visited (stdout w) @ filter (\<lambda>x. \<not> is_sidecar x) files \<and>
           dispatched w' = dispatched w @
             concat (map (call_for ind outd) (filter (\<lambda>x. \<not> is_sidecar x) files))"
proof -
  obtain files where fl: "files_to_process (tree w) ind recursive = Inr files"
    and pre: "\<forall>x \<in> set files. prefix ind x"
    using files_to_process_dir [OF assms] by blast
  have ex: "path_exists (tree w) ind"
    using assms by (auto simp: is_dir_def path_exists_def split: option.splits)
  from cook_files_walk [OF pre, of L outd 0 0 w] fl ex show ?thesis
    by (simp add: cook_directory_def)
qed

lemma lookup_append:
  "lookup f (d @ r) = (case lookup f d of None \<Rightarrow> None | Some nd \<Rightarrow> lookup nd r)"
proof (induction d arbitrary: f)
  case Nil
  then show ?case by simp
next
  case (Cons a d)
  then show ?case
    by (cases f) (auto simp: lookup_File split: option.splits)
qed

lemma rglob_entries_mem:
  "e \<in> set es \<Longrightarrow> p \<in> set (rglob_node m (snd e)) \<Longrightarrow> fst e # p \<in> set (rglob_entries m es)"
  by (induction es) auto

lemma rglob_node_complete:
  "lookup nd r = Some c \<Longrightarrow> r \<noteq> [] \<Longrightarrow> r \<in> set (rglob_node glob_any nd)"
proof (induction r arbitrary: nd)
  case Nil
  then show ?case by simp
next
  case (Cons n p)
  show ?case
  proof (cases nd)
    case (File b)
    then show ?thesis using Cons.prems by simp
  next
    case (Dir es)
    then obtain d where d: "map_of es n = Some d" and l: "lookup d p = Some c"
      using Cons.prems by (auto split: option.splits)
    have mem: "(n, d) \<in> set es" using d by (rule map_of_SomeD)
    show ?thesis
    proof (cases "p = []")
      case True
      then show ?thesis using Dir mem by (force simp: glob_any_def)
    next
      case False
      have "p \<in> set (rglob_node glob_any d)" using Cons.IH [OF l False] .
      then have "n # p \<in> set (rglob_entries glob_any es)"
        using rglob_entries_mem [OF mem, of p glob_any] by simp
      then show ?thesis using Dir by simp
    qed
  qed
qed

lemma rglob_node_nonempty:
  "r \<in> set (rglob_node m nd) \<Longrightarrow> r \<noteq> []"
  "r \<in> set (rglob_entries m es) \<Longrightarrow> r \<noteq> []"
  by (induction m nd and m es arbitrary: r and r rule: rglob_node_rglob_entries.induct) auto

lemma files_recursive_complete:
  assumes "is_file fsys (ind @ r)" and "r \<noteq> []"
  shows "\<exists>files. files_to_process fsys ind True = Inr files \<and> ind @ r \<in> set files"
proof -
  obtain b where f: "lookup fsys (ind @ r) = Some (File b)"
    using assms(1) by (auto simp: is_file_def split: option.splits node.splits)
  then obtain nd where nd: "lookup fsys ind = Some nd" and l: "lookup nd r = Some (File b)"
    by (auto simp: lookup_append split: option.splits)
  obtain es where es: "nd = Dir es"
    using l assms(2) by (cases nd) (auto simp: lookup_File)
  have "r \<in> set (rglob_node glob_any nd)"
    by (rule rglob_node_complete [OF l assms(2)])
  then have "ind @ r \<in> set (rglob fsys ind glob_any)"
    using nd es by (simp add: rglob_def del: rglob_node.simps)
  then show ?thesis using assms(1) by (simp add: files_to_process_def)
qed

lemma files_recursive_sound:
  assumes "files_to_process fsys ind True = Inr files" and "x \<in> set files"
  shows "is_file fsys x \<and> (\<exists>r. r \<noteq> [] \<and> x = ind @ r)"
proof -
  have x: "x \<in> set (rglob fsys ind glob_any)" and "is_file fsys x"
    using assms by (auto simp: files_to_process_def)
  then show ?thesis
    by (auto simp: rglob_def rglob_node_nonempty simp del: rglob_node.simps
             split: option.splits node.splits)
qed

lemma files_non_recursive:
  assumes "lookup fsys ind = Some (Dir es)"
  shows "files_to_process fsys ind False =
           Inr (filter (is_file fsys) (map (\<lambda>e. ind @ [fst e]) es))"
  using assms by (simp add: files_to_process_def iterdir_def)

lemma files_non_recursive_complete:
  assumes "lookup fsys ind = Some (Dir es)" and "is_file fsys (ind @ [n])"
  shows "ind @ [n] \<in> set (filter (is_file fsys) (map (\<lambda>e. ind @ [fst e]) es))"
proof -
  have "map_of es n \<noteq> None"
    using assms by (auto simp: is_file_def lookup_append split: option.splits)
  then obtain c where "(n, c) \<in> set es" by (auto dest: map_of_SomeD)
  then have "ind @ [n] \<in> set (map (\<lambda>e. ind @ [fst e]) es)" by force
  then show ?thesis using assms(2) by simp
qed

lemma calls_inputs:
  "map (fst \<circ> snd) (concat (map (call_for ind outd) xs)) =
     filter (\<lambda>x. get_processor x \<noteq> None) xs"
  by (induction xs) (auto simp: call_for_def split: option.splits)

lemma calls_members:
  "c \<in> set (concat (map (call_for ind outd) xs)) \<Longrightarrow>
     fst (snd c) \<in> set xs \<and> get_processor (fst (snd c)) = Some (fst c) \<and>
     snd (snd c) = rerooted ind outd (fst (snd c))"
  by (induction xs) (auto simp: call_for_def split: option.splits)

lemma cook_directory_empty:
  assumes "lookup (tree w) input_dir = Some (Dir [])"
  shows "cook_directory L input_dir output_dir recursive w = Inr ((0, 0), w)"
  using assms
  by (simp add: cook_directory_def path_exists_def files_to_process_def rglob_def iterdir_def)

lemma main_missing_input:
  assumes "\<not> path_exists (tree w) (arg_input a)"
  shows "main L a w = Inr (1, print w (InputPathMissing (arg_input a)))"
  using assms
  by (auto simp: main_def path_exists_def is_file_def is_dir_def split: option.splits)

lemma wf_entries_mem: "wf_entries es \<Longrightarrow> e \<in> set es \<Longrightarrow> wf_node (snd e)"
  by (induction es) auto

lemma wf_lookup: "wf_node f \<Longrightarrow> lookup f d = Some nd \<Longrightarrow> wf_node nd"
proof (induction d arbitrary: f)
  case Nil
  then show ?case by simp
next
  case (Cons n d)
  show ?case
  proof (cases f)
    case (File b)
    then show ?thesis using Cons.prems by simp
  next
    case (Dir es)
    then obtain c where c: "map_of es n = Some c" and l: "lookup c d = Some nd"
      using Cons.prems by (auto split: option.splits)
    have "(n, c) \<in> set es" using c by (rule map_of_SomeD)
    then have "wf_node c" using Cons.prems(1) Dir wf_entries_mem by fastforce
    then show ?thesis using Cons.IH l by blast
  qed
qed

lemma rglob_entries_head:
  "r \<in> set (rglob_entries m es) \<Longrightarrow> \<exists>n p. r = n # p \<and> p \<noteq> [] \<and> n \<in> fst ` set es"
  by (induction es) (auto simp: rglob_node_nonempty)

lemma distinct_names_paths:
  "distinct (map fst es) \<Longrightarrow> distinct (map (\<lambda>e. d @ [fst e]) (filter P es))"
proof -
  assume "distinct (map fst es)"
  then have "distinct (map fst (filter P es))" by (rule distinct_map_filter)
  then have "distinct (map (\<lambda>n. d @ [n]) (map fst (filter P es)))"
    by (simp add: distinct_map inj_on_def)
  then show ?thesis by (simp add: comp_def)
qed

lemma distinct_rglob:
  "wf_node nd \<Longrightarrow> distinct (rglob_node m nd)"
  "wf_entries es \<Longrightarrow> distinct (map fst es) \<Longrightarrow> distinct (rglob_entries m es)"
proof (induction m nd and m es rule: rglob_node_rglob_entries.induct)
  case (1 m b)
  then show ?case by simp
next
  case (2 m es)
  have d1: "distinct (map (\<lambda>e. [fst e]) (filter (\<lambda>e. m (fst e)) es))"
    using distinct_names_paths [of es "[]" "\<lambda>e. m (fst e)"] 2 by simp
  have d2: "distinct (rglob_entries m es)" using 2 by simp
  have dj: "set (map (\<lambda>e. [fst e]) (filter (\<lambda>e. m (fst e)) es)) \<inter> set (rglob_entries m es) = {}"
    using rglob_entries_head [of _ m es] by fastforce
  show ?case using d1 d2 dj by simp
next
  case (3 m)
  then show ?case by simp
next
  case (4 m e es)
  have d1: "distinct (map ((#) (fst e)) (rglob_node m (snd e)))"
    using 4 by (simp add: distinct_map)
  have d2: "distinct (rglob_entries m es)" using 4 by simp
  have dj: "set (map ((#) (fst e)) (rglob_node m (snd e))) \<inter> set (rglob_entries m es) = {}"
  proof -
    have "fst e \<notin> fst ` set es" using "4.prems"(2) by simp
    then show ?thesis using rglob_entries_head [of _ m es] by fastforce
  qed
  show ?case using d1 d2 dj by simp
qed

lemma distinct_files_to_process:
  assumes "wf_node fsys" and "files_to_process fsys ind recursive = Inr files"
  shows "distinct files"
proof (cases "lookup fsys ind")
  case None
  then show ?thesis using assms(2)
    by (auto simp: files_to_process_def rglob_def iterdir_def split: if_splits)
next
  case (Some nd)
  have wf: "wf_node nd" by (rule wf_lookup [OF assms(1) Some])
  show ?thesis
  proof (cases nd)
    case (File b)
    then show ?thesis using assms(2) Some
      by (auto simp: files_to_process_def rglob_def iterdir_def split: if_splits)
  next
    case (Dir es)
    show ?thesis
    proof (cases recursive)
      case True
      have "distinct (rglob_node glob_any (Dir es))"
        using wf Dir distinct_rglob(1) by blast
      then have "distinct (map ((@) ind) (rglob_node glob_any (Dir es)))"
        by (simp add: distinct_map inj_on_def del: rglob_node.simps)
      then show ?thesis using assms(2) Some Dir True
        by (auto simp: files_to_process_def rglob_def simp del: rglob_node.simps)
    next
      case False
      have "distinct (map fst es)" using wf Dir by simp
      then have "distinct (map (\<lambda>e. ind @ [fst e]) (filter (\<lambda>e. True) es))"
        by (rule distinct_names_paths)
      then show ?thesis using assms(2) Some Dir False
        by (auto simp: files_to_process_def iterdir_def)
    qed
  qed
qed

lemma files_to_process_complete:
  assumes "is_file fsys (ind @ r)" and "r \<noteq> []" and "recursive \<or> length r = 1"
    and "files_to_process fsys ind recursive = Inr files"
  shows "ind @ r \<in> set files"
proof (cases recursive)
  case True
  then show ?thesis
    using files_recursive_complete [OF assms(1,2)] assms(4) by auto
next
  case False
  then obtain n where r: "r = [n]" using assms(3) by (cases r) auto
  obtain nd where nd: "lookup fsys ind = Some nd"
    using assms(1) by (auto simp: is_file_def lookup_append split: option.splits)
  obtain es where es: "nd = Dir es"
    using assms(1) nd r by (cases nd) (auto simp: is_file_def lookup_append)
  have m: "ind @ [n] \<in> set (filter (is_file fsys) (map (\<lambda>e. ind @ [fst e]) es))"
    using files_non_recursive_complete [of fsys ind es n] nd es assms(1) r by simp
  have "files = filter (is_file fsys) (map (\<lambda>e. ind @ [fst e]) es)"
    using files_non_recursive [of fsys ind es] nd es assms(4) False by simp
  then show ?thesis
    using m r by (simp only:)
qed

text \<open>An input path that is a regular file: the recursive walk finds nothing, the
  non-recursive one raises. The command line calls \<^verbatim>\<open>cook_directory\<close> for directories
  only, so it never ends with an exception.\<close>

lemma cook_directory_on_a_file:
  assumes "is_file (tree w) input_dir"
  shows "cook_directory L input_dir output_dir True w = Inr ((0, 0), w)"
    and "cook_directory L input_dir output_dir False w = Inl NotADirectoryError"
  using assms
  by (auto simp: cook_directory_def path_exists_def is_file_def files_to_process_def rglob_def
      iterdir_def split: option.splits node.splits)

lemma main_never_raises:
  "\<exists>status w'. main L a w = Inr (status, w')"
proof (cases "is_file (tree w) (arg_input a)")
  case True
  then show ?thesis
    by (auto simp: main_def split: prod.splits)
next
  case False
  show ?thesis
  proof (cases "is_dir (tree w) (arg_input a)")
    case True
    let ?w = "if arg_verbose a then print w (ProcessingDirectory (arg_input a)) else w"
    have "is_dir (tree ?w) (arg_input a)" using True by (simp add: print_def)
    then obtain p f w' where
      "cook_directory L (arg_input a) (arg_output a) (arg_recursive a) ?w = Inr ((p, f), w')"
      using cook_directory_walk [of ?w "arg_input a" "arg_recursive a" L "arg_output a"] by blast
    then show ?thesis using False True
      by (auto simp: main_def Let_def)
  next
    case nd: False
    then show ?thesis using False by (simp add: main_def)
  qed
qed


section \<open>Properties of the processors\<close>

lemma stem_json_differs:
  assumes "name_suffix nm \<noteq> ''.json''"
  shows "(if name_suffix nm = [] then nm
          else take (length nm - length (name_suffix nm)) nm) @ ''.json'' \<noteq> nm"
proof (cases "name_suffix nm = []")
  case True
  have "length (nm @ ''.json'') \<noteq> length nm" by simp
  then have "nm @ ''.json'' \<noteq> nm" by (metis (full_types))
  then show ?thesis using True by simp
next
  case False
  let ?st = "take (length nm - length (name_suffix nm)) nm"
  have split: "?st @ name_suffix nm = nm" by (rule name_stem_suffix)
  have "?st @ ''.json'' \<noteq> nm"
  proof
    assume a: "?st @ ''.json'' = nm"
    have "nm = ?st @ name_suffix nm" using split by (rule sym)
    with a have "?st @ ''.json'' = ?st @ name_suffix nm" by (rule trans)
    then have "''.json'' = name_suffix nm" by (simp only: same_append_eq)
    then show False using assms by simp
  qed
  then show ?thesis using False by simp
qed

lemma with_suffix_differs:
  assumes "with_suffix p ''.json'' = Some mp" and "\<not> is_sidecar p"
  shows "mp \<noteq> p"
proof
  assume eq: "mp = p"
  define new where
    "new = (if name_suffix (path_name p) = [] then path_name p
            else take (length (path_name p) - length (name_suffix (path_name p))) (path_name p))
           @ ''.json''"
  have ne: "p \<noteq> []" and mp: "mp = butlast p @ [new]"
    using assms(1)
    by (auto simp: new_def with_suffix_def path_suffix_def path_name_def Let_def split: if_splits)
  have nm: "path_name p = last p" using ne by (simp add: path_name_def)
  have "last mp = new" using mp by simp
  then have "last p = new" using eq by simp
  then have "new = path_name p" using nm by simp
  moreover have "new \<noteq> path_name p"
    unfolding new_def
    by (rule stem_json_differs) (use assms(2) in \<open>simp add: is_sidecar_def path_suffix_def\<close>)
  ultimately show False by simp
qed

lemma copy2_not_dir:
  assumes "copy2 f src dst = Some f'" and "\<not> is_dir f dst"
  shows "\<exists>b. read_file f src = Some b \<and> write_file f dst b = Some f' \<and> src \<noteq> dst"
  using assms by (auto simp: copy2_def split: if_splits option.splits)

lemma pass_through_steps:
  assumes run: "(case mkdir_p f0 (path_parent outp) of
        None \<Rightarrow> (False, f0)
      | Some f1 \<Rightarrow>
     (case copy2 f1 inp outp of
        None \<Rightarrow> (False, f1)
      | Some f2 \<Rightarrow>
     (case with_suffix outp ''.json'' of
        None \<Rightarrow> (False, f2)
      | Some metadata_path \<Rightarrow>
     (case write_file f2 metadata_path doc of
        None \<Rightarrow> (False, f2)
      | Some f3 \<Rightarrow> (True, f3))))) = (True, f')"
    and nd: "\<not> is_dir f0 outp"
  shows "\<exists>b f1 f2 metadata_path.
      read_file f0 inp = Some b \<and>
      mkdir_p f0 (path_parent outp) = Some f1 \<and>
      write_file f1 outp b = Some f2 \<and>
      read_file f2 outp = Some b \<and>
      with_suffix outp ''.json'' = Some metadata_path \<and>
      write_file f2 metadata_path doc = Some f' \<and>
      read_file f' metadata_path = Some doc \<and>
      (\<not> is_sidecar outp \<longrightarrow> read_file f' outp = Some b)"
proof -
  obtain f1 f2 mp where
    mk: "mkdir_p f0 (path_parent outp) = Some f1" and
    cp: "copy2 f1 inp outp = Some f2" and
    ws: "with_suffix outp ''.json'' = Some mp" and
    wr: "write_file f2 mp doc = Some f'"
    using run by (auto split: option.splits)
  have nd1: "\<not> is_dir f1 outp"
    using nd mkdir_p_parent_is_dir [OF mk] by simp
  obtain b where rd1: "read_file f1 inp = Some b" and w1: "write_file f1 outp b = Some f2"
    using copy2_not_dir [OF cp nd1] by blast
  have rd0: "read_file f0 inp = Some b"
    using rd1 mkdir_p_read [OF mk] by simp
  have r2: "read_file f2 outp = Some b"
    by (rule write_file_read_same [OF w1])
  have rm: "read_file f' mp = Some doc"
    by (rule write_file_read_same [OF wr])
  have keep: "\<not> is_sidecar outp \<longrightarrow> read_file f' outp = Some b"
  proof
    assume "\<not> is_sidecar outp"
    then have "outp \<noteq> mp" using with_suffix_differs [OF ws] by auto
    then show "read_file f' outp = Some b"
      using write_file_read_other [OF wr] r2 by simp
  qed
  show ?thesis using rd0 mk w1 r2 ws wr rm keep by blast
qed

lemma shader_steps:
  assumes run: "ShaderProcessor_process L inp outp f0 = (True, f')"
  shows "\<exists>b source f1 f2 metadata_path.
      read_file f0 inp = Some b \<and>
      text_decode L b = Some source \<and>
      mkdir_p f0 (path_parent outp) = Some f1 \<and>
      write_file f1 outp (text_encode L source) = Some f2 \<and>
      read_file f2 outp = Some (text_encode L source) \<and>
      with_suffix outp ''.json'' = Some metadata_path \<and>
      write_file f2 metadata_path (json_dump L (shader_metadata inp)) = Some f' \<and>
      read_file f' metadata_path = Some (json_dump L (shader_metadata inp)) \<and>
      (\<not> is_sidecar outp \<longrightarrow> read_file f' outp = Some (text_encode L source))"
proof -
  obtain b source f1 f2 mp where
    rd: "read_file f0 inp = Some b" and
    dc: "text_decode L b = Some source" and
    mk: "mkdir_p f0 (path_parent outp) = Some f1" and
    w1: "write_file f1 outp (text_encode L source) = Some f2" and
    ws: "with_suffix outp ''.json'' = Some mp" and
    wr: "write_file f2 mp (json_dump L (shader_metadata inp)) = Some f'"
    using run by (auto simp: ShaderProcessor_process_def split: option.splits)
  have r2: "read_file f2 outp = Some (text_encode L source)"
    by (rule write_file_read_same [OF w1])
  have rm: "read_file f' mp = Some (json_dump L (shader_metadata inp))"
    by (rule write_file_read_same [OF wr])
  have keep: "\<not> is_sidecar outp \<longrightarrow> read_file f' outp = Some (text_encode L source)"
  proof
    assume "\<not> is_sidecar outp"
    then have "outp \<noteq> mp" using with_suffix_differs [OF ws] by auto
    then show "read_file f' outp = Some (text_encode L source)"
      using write_file_read_other [OF wr] r2 by simp
  qed
  show ?thesis using rd dc mk w1 r2 ws wr rm keep by blast
qed

lemma process_success:
  assumes "process L pr i o' w = (True, w')"
  shows "try_block pr L i o' (tree w) = (True, tree w') \<and>
         stdout w' = stdout w @ [Processed pr i o'] \<and>
         dispatched w' = dispatched w"
  using assms by (auto simp: process_def print_def split: prod.splits if_splits)

lemma process_run:
  "fst (process L pr i o' w) = fst (try_block pr L i o' (tree w))"
  "tree (snd (process L pr i o' w)) = snd (try_block pr L i o' (tree w))"
  by (auto simp: process_def print_def split: prod.splits)

lemma mkdir_p_succeeds:
  "(\<forall>p. prefix p d \<longrightarrow> \<not> is_file f p) \<Longrightarrow> \<exists>f'. mkdir_p f d = Some f'"
proof (induction d arbitrary: f)
  case Nil
  then show ?case by (cases f) (auto simp: is_file_def)
next
  case (Cons n d)
  show ?case
  proof (cases f)
    case (File b)
    have "prefix [] (n # d)" by simp
    then have "\<not> is_file f []" using Cons.prems by blast
    then show ?thesis using File by (simp add: is_file_def)
  next
    case (Dir es)
    show ?thesis
    proof (cases "map_of es n")
      case None
      then show ?thesis using Dir by simp
    next
      case (Some c)
      have "\<forall>p. prefix p d \<longrightarrow> \<not> is_file c p"
      proof (intro allI impI)
        fix p assume "prefix p d"
        then have "\<not> is_file f (n # p)" using Cons.prems by simp
        then show "\<not> is_file c p" using Dir Some by (simp add: is_file_def)
      qed
      then obtain c' where "mkdir_p c d = Some c'" using Cons.IH by blast
      then show ?thesis using Dir Some by simp
    qed
  qed
qed

lemma mkdir_p_is_dir: "mkdir_p f d = Some f' \<Longrightarrow> is_dir f' d"
  using mkdir_p_lookup_prefix [of f d f' d] by (auto simp: is_dir_def)

lemma with_suffix_shape:
  assumes "with_suffix p sfx = Some q"
  shows "p \<noteq> [] \<and> q \<noteq> [] \<and> butlast q = butlast p"
  using assms by (auto simp: with_suffix_def path_name_def Let_def split: if_splits)

lemma write_two_files:
  assumes mk: "mkdir_p f (path_parent outp) = Some f1"
    and ws: "with_suffix outp ''.json'' = Some mp"
    and nd: "\<not> is_dir f outp"
    and ndm: "\<not> is_dir f mp"
  shows "\<exists>f2 f3. write_file f1 outp b = Some f2 \<and> write_file f2 mp doc = Some f3"
proof -
  have ne: "outp \<noteq> []" and mne: "mp \<noteq> []" and bl: "butlast mp = butlast outp"
    using with_suffix_shape [OF ws] by auto
  have par: "is_dir f1 (butlast outp)"
    using mkdir_p_is_dir [OF mk] by (simp add: path_parent_def)
  have nd1: "\<not> is_dir f1 outp"
    using nd mkdir_p_parent_is_dir [OF mk] by simp
  have "\<exists>f2. write_file f1 (butlast outp @ [last outp]) b = Some f2"
    using par nd1 ne by (intro write_file_succeeds) simp_all
  then obtain f2 where w1: "write_file f1 outp b = Some f2" using ne by auto
  have mk': "mkdir_p f (path_parent mp) = Some f1"
    using mk bl by (simp add: path_parent_def)
  have ndm1: "\<not> is_dir f1 mp"
    using ndm mkdir_p_parent_is_dir [OF mk'] by simp
  have par2: "is_dir f2 (butlast mp)"
    using par bl write_file_is_dir [OF w1] by simp
  have ndm2: "\<not> is_dir f2 mp"
    using ndm1 write_file_is_dir [OF w1] by simp
  have "\<exists>f3. write_file f2 (butlast mp @ [last mp]) doc = Some f3"
    using par2 ndm2 mne by (intro write_file_succeeds) simp_all
  then obtain f3 where "write_file f2 mp doc = Some f3" using mne by auto
  then show ?thesis using w1 by blast
qed

lemma shader_process_succeeds:
  assumes "read_file (tree w) inp = Some b"
    and "text_decode L b = Some source"
    and "\<forall>p. prefix p (path_parent outp) \<longrightarrow> \<not> is_file (tree w) p"
    and "with_suffix outp ''.json'' = Some mp"
    and "\<not> is_dir (tree w) outp"
    and "\<not> is_dir (tree w) mp"
  shows "fst (process L ShaderProcessor inp outp w)"
proof -
  obtain f1 where mk: "mkdir_p (tree w) (path_parent outp) = Some f1"
    using mkdir_p_succeeds [OF assms(3)] by blast
  obtain f2 f3 where "write_file f1 outp (text_encode L source) = Some f2"
    "write_file f2 mp (json_dump L (shader_metadata inp)) = Some f3"
    using write_two_files [OF mk assms(4,5,6)] by blast
  then show ?thesis
    using assms(1,2,4) mk by (simp add: process_run ShaderProcessor_process_def)
qed

lemma shader_stage_known:
  assumes "get_processor p = Some ShaderProcessor"
  shows "lower (path_suffix p) \<in> set (supported_extensions ShaderProcessor) \<and>
         map_of type_map (lower (path_suffix p)) = Some (get_shader_type (path_suffix p)) \<and>
         get_shader_type (path_suffix p) \<noteq> ''unknown''"
proof -
  have "can_process ShaderProcessor p"
    using assms by (auto simp: get_processor_def find_Some_iff)
  then have "lower (path_suffix p) \<in> set (supported_extensions ShaderProcessor)"
    by (simp add: can_process_def)
  then show ?thesis
    by (auto simp: get_shader_type_def type_map_def)
qed

lemma write_file_dir_fails: "is_dir f p \<Longrightarrow> write_file f p b = None"
proof (rule ccontr)
  assume d: "is_dir f p" and "write_file f p b \<noteq> None"
  then obtain f' where "write_file f p b = Some f'" by auto
  then have "\<forall>ds. lookup f p \<noteq> Some (Dir ds)" using write_file_not_dir by blast
  then show False using d by (auto simp: is_dir_def split: option.splits node.splits)
qed

lemma shader_refuses_directory:
  assumes "is_dir (tree w) output_path"
  shows "\<not> fst (process L ShaderProcessor input_path output_path w)"
proof -
  have "write_file f1 output_path b = None"
    if "mkdir_p (tree w) (path_parent output_path) = Some f1" for f1 b
    using assms mkdir_p_parent_is_dir [OF that] write_file_dir_fails by simp
  then show ?thesis
    by (simp add: process_run ShaderProcessor_process_def split: option.splits)
qed

lemma texture_refuses_directory:
  assumes "is_dir (tree w) output_path"
  shows "\<not> fst (process L TextureProcessor input_path output_path w)"
proof -
  have "write_file f1 output_path b = None"
    if "mkdir_p (tree w) (path_parent output_path) = Some f1" for f1 b
    using assms mkdir_p_parent_is_dir [OF that] write_file_dir_fails by simp
  then show ?thesis
    by (simp add: process_run TextureProcessor_process_def split: option.splits)
qed

lemma copy_into_directory:
  assumes "pr = ModelProcessor \<or> pr = AudioProcessor"
    and "process L pr input_path output_path w = (True, w')"
    and "is_dir (tree w) output_path"
  shows "is_dir (tree w') output_path \<and>
         read_file (tree w') output_path = None \<and>
         read_file (tree w') (output_path @ [path_name input_path])
           = read_file (tree w) input_path"
proof -
  let ?doc = "json_dump L (if pr = ModelProcessor then model_metadata input_path
                           else audio_metadata input_path)"
  have run: "try_block pr L input_path output_path (tree w) = (True, tree w')"
    using process_success [OF assms(2)] by simp
  have "(case mkdir_p (tree w) (path_parent output_path) of
        None \<Rightarrow> (False, tree w)
      | Some f1 \<Rightarrow>
     (case copy2 f1 input_path output_path of
        None \<Rightarrow> (False, f1)
      | Some f2 \<Rightarrow>
     (case with_suffix output_path ''.json'' of
        None \<Rightarrow> (False, f2)
      | Some metadata_path \<Rightarrow>
     (case write_file f2 metadata_path ?doc of
        None \<Rightarrow> (False, f2)
      | Some f3 \<Rightarrow> (True, f3))))) = (True, tree w')"
    using assms(1) run by (auto simp: ModelProcessor_process_def AudioProcessor_process_def)
  then obtain f1 f2 mp where
    mk: "mkdir_p (tree w) (path_parent output_path) = Some f1" and
    cp: "copy2 f1 input_path output_path = Some f2" and
    ws: "with_suffix output_path ''.json'' = Some mp" and
    wr: "write_file f2 mp ?doc = Some (tree w')"
    by (auto split: option.splits)
  have d1: "is_dir f1 output_path"
    using assms(3) mkdir_p_parent_is_dir [OF mk] by simp
  obtain b where rd1: "read_file f1 input_path = Some b"
    and w1: "write_file f1 (output_path @ [path_name input_path]) b = Some f2"
    using cp d1 by (auto simp: copy2_def Let_def split: if_splits option.splits)
  have d2: "is_dir f2 output_path" using d1 write_file_is_dir [OF w1] by simp
  have d3: "is_dir (tree w') output_path" using d2 write_file_is_dir [OF wr] by simp
  have none: "read_file (tree w') output_path = None"
    using d3 by (auto simp: is_dir_def read_file_def split: option.splits node.splits)
  have rd0: "read_file (tree w) input_path = Some b"
    using rd1 mkdir_p_read [OF mk] by simp
  have inside: "read_file f2 (output_path @ [path_name input_path]) = Some b"
    by (rule write_file_read_same [OF w1])
  have "length (butlast mp) = length (butlast output_path)" and "mp \<noteq> []"
    and "output_path \<noteq> []"
    using with_suffix_shape [OF ws] by simp_all
  then have "length mp = length output_path"
    by (metis append_butlast_last_id length_append_singleton)
  then have "output_path @ [path_name input_path] \<noteq> mp" by auto
  then have keep: "read_file (tree w') (output_path @ [path_name input_path])
                = read_file (tree w) input_path"
    using write_file_read_other [OF wr, of "output_path @ [path_name input_path]"]
      inside rd0 by simp
  show ?thesis using d3 none keep by blast
qed


section \<open>Properties of the manifest loop\<close>

lemma collect_metadata_spec:
  "collect_metadata L fsys outd mfs assets out =
     (assets @ List.map_filter (read_metadata L fsys outd)
                 (filter (\<lambda>m. path_name m \<noteq> ''manifest.json'') mfs),
      out @ map ErrorReadingMetadata
              (filter (\<lambda>m. read_metadata L fsys outd m = None)
                 (filter (\<lambda>m. path_name m \<noteq> ''manifest.json'') mfs)))"
proof (induction mfs arbitrary: assets out)
  case Nil
  then show ?case by (simp add: List.map_filter_simps)
next
  case (Cons m mfs)
  then show ?case
    by (cases "read_metadata L fsys outd m") (simp_all add: List.map_filter_simps)
qed

lemma read_metadata_path:
  assumes "read_metadata L fsys outd m = Some a"
  shows "\<exists>b asset_file rel.
           read_file fsys m = Some b \<and>
           with_suffix m [] = Some asset_file \<and>
           relative_to asset_file outd = Some rel \<and>
           json_get a ''path'' = Some (JString (path_str rel))"
  using assms
  by (auto simp: read_metadata_def json_get_def map_of_update split: option.splits json.splits)

lemma read_metadata_parse_failure:
  assumes "read_file fsys m = Some b" and "json_load L b = None"
  shows "read_metadata L fsys outd m = None"
  using assms by (simp add: read_metadata_def)

lemma generate_asset_manifest_result:
  "generate_asset_manifest L outd w =
     (case write_file (tree w) (outd @ [''manifest.json''])
             (json_dump L (manifest_of
                (List.map_filter (read_metadata L (tree w) outd) (manifest_sources (tree w) outd)))) of
        None \<Rightarrow>
          (False, w\<lparr>stdout := stdout w @
              map ErrorReadingMetadata
                (filter (\<lambda>m. read_metadata L (tree w) outd m = None) (manifest_sources (tree w) outd))
              @ [ErrorGeneratingManifest]\<rparr>)
      | Some f \<Rightarrow>
          (True, w\<lparr>tree := f, stdout := stdout w @
              map ErrorReadingMetadata
                (filter (\<lambda>m. read_metadata L (tree w) outd m = None) (manifest_sources (tree w) outd))
              @ [GeneratedManifest (outd @ [''manifest.json''])]\<rparr>))"
  by (simp add: generate_asset_manifest_def collect_metadata_spec manifest_sources_def Let_def
           split: option.splits)

lemma rglob_node_matches:
  "r \<in> set (rglob_node m nd) \<Longrightarrow> r \<noteq> [] \<and> m (last r)"
  "r \<in> set (rglob_entries m es) \<Longrightarrow> r \<noteq> [] \<and> m (last r)"
  by (induction m nd and m es arbitrary: r and r rule: rglob_node_rglob_entries.induct) auto

lemma rglob_node_complete_pattern:
  "lookup nd r = Some c \<Longrightarrow> r \<noteq> [] \<Longrightarrow> m (last r) \<Longrightarrow> r \<in> set (rglob_node m nd)"
proof (induction r arbitrary: nd)
  case Nil
  then show ?case by simp
next
  case (Cons n p)
  show ?case
  proof (cases nd)
    case (File b)
    then show ?thesis using Cons.prems by simp
  next
    case (Dir es)
    then obtain d where d: "map_of es n = Some d" and l: "lookup d p = Some c"
      using Cons.prems by (auto split: option.splits)
    have mem: "(n, d) \<in> set es" using d by (rule map_of_SomeD)
    show ?thesis
    proof (cases "p = []")
      case True
      then show ?thesis using Dir mem Cons.prems(3) by force
    next
      case False
      have "p \<in> set (rglob_node m d)" using Cons.IH [OF l False] Cons.prems(3) False by simp
      then have "n # p \<in> set (rglob_entries m es)"
        using rglob_entries_mem [OF mem, of p m] by simp
      then show ?thesis using Dir by simp
    qed
  qed
qed

lemma rglob_shape:
  assumes "x \<in> set (rglob fsys d m)"
  shows "\<exists>r. x = d @ r \<and> r \<noteq> [] \<and> m (last r)"
proof -
  obtain es where "lookup fsys d = Some (Dir es)" and "x \<in> set (map ((@) d) (rglob_node m (Dir es)))"
    using assms
    by (cases "lookup fsys d")
       (auto simp: rglob_def simp del: rglob_node.simps split: node.splits)
  then obtain r where "x = d @ r" "r \<in> set (rglob_node m (Dir es))" by auto
  then show ?thesis using rglob_node_matches(1) by blast
qed

lemma rglob_complete:
  assumes "path_exists fsys (d @ r)" and "r \<noteq> []" and "m (last r)"
  shows "d @ r \<in> set (rglob fsys d m)"
proof -
  obtain c where c: "lookup fsys (d @ r) = Some c"
    using assms(1) by (auto simp: path_exists_def)
  then obtain nd where nd: "lookup fsys d = Some nd" and l: "lookup nd r = Some c"
    by (auto simp: lookup_append split: option.splits)
  obtain es where es: "nd = Dir es"
    using l assms(2) by (cases nd) (auto simp: lookup_File)
  have "r \<in> set (rglob_node m nd)"
    using l assms(2,3) by (rule rglob_node_complete_pattern)
  then show ?thesis using nd es by (simp add: rglob_def del: rglob_node.simps)
qed

lemma read_metadata_asset_record:
  assumes "x \<in> set (rglob fsys outd glob_json)"
  shows "read_metadata L fsys outd x = asset_record L fsys outd x"
proof -
  obtain r where x: "x = outd @ r" and r: "r \<noteq> []" and g: "glob_json (last r)"
    using rglob_shape [OF assms] by blast
  have xne: "x \<noteq> []" using x r by simp
  have lx: "last x = last r" using x r by simp
  have nm: "path_name x = last r" using xne lx by (simp add: path_name_def)
  have "last r \<noteq> []" using g by (auto simp: glob_json_def)
  then have nne: "path_name x \<noteq> []" using nm by simp
  let ?stem = "take (length (last x) - length (name_suffix (last x))) (last x)"
  have stem: "(if name_suffix (last x) = [] then last x else ?stem) = ?stem"
    by simp
  have ws: "with_suffix x [] = Some (butlast x @ [?stem])"
    using nne nm lx by (simp add: with_suffix_def path_suffix_def Let_def)
  have bl: "butlast x = outd @ butlast r" using x r by (simp add: butlast_append)
  have rel: "relative_to (butlast x @ [?stem]) outd = Some (asset_path outd x)"
    using bl by (simp add: relative_to_def asset_path_def)
  show ?thesis
    using ws rel
    by (auto simp: read_metadata_def asset_record_def parsed_record_def
        split: option.splits json.splits)
qed

lemma asset_record_None: "(asset_record L fsys outd x = None) = (parsed_record L fsys x = None)"
  by (simp add: asset_record_def split: option.splits)

lemma manifest_sources_records:
  "List.map_filter (read_metadata L fsys outd) (manifest_sources fsys outd)
     = List.map_filter (asset_record L fsys outd) (manifest_sources fsys outd)"
  "filter (\<lambda>m. read_metadata L fsys outd m = None) (manifest_sources fsys outd)
     = filter (\<lambda>m. parsed_record L fsys m = None) (manifest_sources fsys outd)"
proof -
  have eq: "\<forall>x \<in> set (manifest_sources fsys outd).
              read_metadata L fsys outd x = asset_record L fsys outd x"
    using read_metadata_asset_record by (auto simp: manifest_sources_def)
  show "List.map_filter (read_metadata L fsys outd) (manifest_sources fsys outd)
     = List.map_filter (asset_record L fsys outd) (manifest_sources fsys outd)"
    unfolding List.map_filter_def using eq
    by (intro arg_cong [where f = "map _"] map_cong filter_cong) auto
  show "filter (\<lambda>m. read_metadata L fsys outd m = None) (manifest_sources fsys outd)
     = filter (\<lambda>m. parsed_record L fsys m = None) (manifest_sources fsys outd)"
    using eq by (intro filter_cong) (auto simp: asset_record_None)
qed

lemma manifest_sources_complete:
  assumes "path_exists fsys (outd @ r)" and "r \<noteq> []" and "suffix ''.json'' (last r)"
    and "last r \<noteq> ''manifest.json''"
  shows "outd @ r \<in> set (manifest_sources fsys outd)"
proof -
  have "outd @ r \<in> set (rglob fsys outd glob_json)"
    using rglob_complete [OF assms(1,2), of glob_json] assms(3) by (simp add: glob_json_def)
  moreover have "path_name (outd @ r) = last r" using assms(2) by (simp add: path_name_def)
  ultimately show ?thesis using assms(4) by (simp add: manifest_sources_def)
qed

lemma manifest_sources_sound:
  assumes "x \<in> set (manifest_sources fsys outd)"
  shows "\<exists>r. x = outd @ r \<and> r \<noteq> [] \<and> suffix ''.json'' (last r) \<and> last r \<noteq> ''manifest.json''"
proof -
  have x: "x \<in> set (rglob fsys outd glob_json)" and n: "path_name x \<noteq> ''manifest.json''"
    using assms by (auto simp: manifest_sources_def)
  obtain r where r: "x = outd @ r" "r \<noteq> []" "glob_json (last r)"
    using rglob_shape [OF x] by blast
  then have "path_name x = last r" by (simp add: path_name_def)
  then show ?thesis using r n by (auto simp: glob_json_def)
qed


section \<open>Evaluation on concrete inputs\<close>

lemmas path_eval = path_suffix_def path_name_def name_suffix_def rfind_dot_def lower_def
  lower_char_def with_suffix_def relative_to_def path_parent_def

lemmas fs_eval = is_dir_def is_file_def path_exists_def read_file_def rglob_def iterdir_def
  glob_any_def glob_json_def copy2_def

lemmas cook_eval = cook_directory_def files_to_process_def cook_asset_def get_processor_def
  can_process_def processors_def process_def print_def world0_def demo_libs_def
  TextureProcessor_process_def ModelProcessor_process_def AudioProcessor_process_def
  ShaderProcessor_process_def

lemmas manifest_eval = generate_asset_manifest_def manifest_sources_def read_metadata_def
  json_get_def suffix_to_prefix


section \<open>Processor resolution\<close>

text \<open>
  Claim C4. Processor resolution depends only on the case-folded extension of the file:
  for every path \<open>p\<close>, \<^verbatim>\<open>get_processor\<close> returns for \<open>p\<close> with its suffix lowercased what it
  returns for \<open>p\<close>, two paths whose lowercased suffixes agree resolve alike, and
  \<^verbatim>\<open>TEXTURE.PNG\<close> resolves to the texture processor as \<^verbatim>\<open>texture.png\<close> does.
\<close>

theorem get_processor_case_insensitive:
  "(\<forall>q. with_suffix p (lower (path_suffix p)) = Some q \<longrightarrow> get_processor q = get_processor p) \<and>
   (\<forall>q. lower (path_suffix q) = lower (path_suffix p) \<longrightarrow> get_processor q = get_processor p) \<and>
   get_processor [''TEXTURE.PNG''] = Some TextureProcessor \<and>
   get_processor [''texture.png''] = Some TextureProcessor"
proof (intro conjI allI impI)
  fix q
  assume "with_suffix p (lower (path_suffix p)) = Some q"
  then have "path_suffix q = lower (path_suffix p)"
    by (rule path_suffix_with_lower_suffix)
  then have "lower (path_suffix q) = lower (path_suffix p)"
    by (simp add: lower_idem)
  then show "get_processor q = get_processor p"
    by (rule get_processor_cong)
next
  fix q
  assume "lower (path_suffix q) = lower (path_suffix p)"
  then show "get_processor q = get_processor p"
    by (rule get_processor_cong)
next
  show "get_processor [''TEXTURE.PNG''] = Some TextureProcessor"
    by (simp add: get_processor_def can_process_def processors_def path_suffix_def
        path_name_def name_suffix_def rfind_dot_def lower_def lower_char_def)
next
  show "get_processor [''texture.png''] = Some TextureProcessor"
    by (simp add: get_processor_def can_process_def processors_def path_suffix_def
        path_name_def name_suffix_def rfind_dot_def lower_def lower_char_def)
qed

theorem get_processor_case_insensitive_witness:
  "with_suffix [''art'', ''TEXTURE.PNG''] (lower (path_suffix [''art'', ''TEXTURE.PNG'']))
     = Some [''art'', ''TEXTURE.png''] \<and>
   get_processor [''art'', ''TEXTURE.png''] = get_processor [''art'', ''TEXTURE.PNG''] \<and>
   lower (path_suffix [''texture.png'']) = lower (path_suffix [''art'', ''TEXTURE.PNG'']) \<and>
   get_processor [''texture.png''] = get_processor [''art'', ''TEXTURE.PNG'']"
proof -
  have w: "with_suffix [''art'', ''TEXTURE.PNG''] (lower (path_suffix [''art'', ''TEXTURE.PNG'']))
     = Some [''art'', ''TEXTURE.png'']"
    by (simp add: with_suffix_def path_suffix_def path_name_def name_suffix_def rfind_dot_def
        lower_def lower_char_def)
  have l: "lower (path_suffix [''texture.png'']) = lower (path_suffix [''art'', ''TEXTURE.PNG''])"
    by (simp add: path_suffix_def path_name_def name_suffix_def rfind_dot_def
        lower_def lower_char_def)
  show ?thesis
    using get_processor_case_insensitive [of "[''art'', ''TEXTURE.PNG'']"] w l by blast
qed


section \<open>The directory walk\<close>

text \<open>
  Claim C1. For every input tree and either traversal mode, \<^verbatim>\<open>cook_directory\<close> returns a
  pair of counts whose sum is the number of enumerated regular files that do not bear the
  \<^verbatim>\<open>.json\<close> extension. The files bearing it are skipped: the files the walk announces are
  the others, in order, and no call of a processor has one of them for its input. The
  enumerated files are the regular files below the input directory (its own entries in
  non-recursive mode), each of them once when no directory has two entries of one name.
\<close>

theorem cook_directory_counts:
  assumes "is_dir (tree w) input_dir"
  shows "\<exists>files processed_count failed_count w'.
           files_to_process (tree w) input_dir recursive = Inr files \<and>
           (\<forall>x \<in> set files. is_file (tree w) x \<and> prefix input_dir x) \<and>
           (\<forall>r. r \<noteq> [] \<longrightarrow> is_file (tree w) (input_dir @ r) \<longrightarrow> recursive \<or> length r = 1 \<longrightarrow>
              input_dir @ r \<in> set files) \<and>
           (wf_node (tree w) \<longrightarrow> distinct files) \<and>
           cook_directory L input_dir output_dir recursive w
             = Inr ((processed_count, failed_count), w') \<and>
           processed_count + failed_count = length (filter (\<lambda>x. \<not> is_sidecar x) files) \<and>
           visited (stdout w') = visited (stdout w) @ filter (\<lambda>x. \<not> is_sidecar x) files \<and>
           (\<exists>calls. dispatched w' = dispatched w @ calls \<and>
              (\<forall>c \<in> set calls. \<not> is_sidecar (fst (snd c)) \<and> fst (snd c) \<in> set files))"
proof -
  obtain files p f w' where
    fl: "files_to_process (tree w) input_dir recursive = Inr files" and
    cd: "cook_directory L input_dir output_dir recursive w = Inr ((p, f), w')" and
    cnt: "p + f = length (filter (\<lambda>x. \<not> is_sidecar x) files)" and
    vis: "visited (stdout w') = visited (stdout w) @ filter (\<lambda>x. \<not> is_sidecar x) files" and
    dis: "dispatched w' = dispatched w @
             concat (map (call_for input_dir output_dir) (filter (\<lambda>x. \<not> is_sidecar x) files))"
    using cook_directory_walk [OF assms, of recursive L output_dir] by blast
  have reg: "\<forall>x \<in> set files. is_file (tree w) x \<and> prefix input_dir x"
    using files_to_process_dir [OF assms, of recursive] fl by auto
  have all: "\<forall>r. r \<noteq> [] \<longrightarrow> is_file (tree w) (input_dir @ r) \<longrightarrow> recursive \<or> length r = 1 \<longrightarrow>
              input_dir @ r \<in> set files"
    using files_to_process_complete [OF _ _ _ fl] by blast
  have once: "wf_node (tree w) \<longrightarrow> distinct files"
    using distinct_files_to_process [OF _ fl] by blast
  have mem: "\<forall>c \<in> set (concat (map (call_for input_dir output_dir)
                 (filter (\<lambda>x. \<not> is_sidecar x) files))).
               \<not> is_sidecar (fst (snd c)) \<and> fst (snd c) \<in> set files"
    using calls_members [of _ input_dir output_dir "filter (\<lambda>x. \<not> is_sidecar x) files"]
    by auto
  show ?thesis
    using fl reg all once cd cnt vis dis mem by blast
qed

theorem cook_directory_counts_witness:
  "is_dir (tree (world0 tree1)) [''in''] \<and>
   (\<exists>files processed_count failed_count w'.
      files_to_process (tree (world0 tree1)) [''in''] True = Inr files \<and>
      (\<forall>x \<in> set files. is_file (tree (world0 tree1)) x \<and> prefix [''in''] x) \<and>
      (\<forall>r. r \<noteq> [] \<longrightarrow> is_file (tree (world0 tree1)) ([''in''] @ r) \<longrightarrow> True \<or> length r = 1 \<longrightarrow>
         [''in''] @ r \<in> set files) \<and>
      (wf_node (tree (world0 tree1)) \<longrightarrow> distinct files) \<and>
      cook_directory demo_libs [''in''] [''out''] True (world0 tree1)
        = Inr ((processed_count, failed_count), w') \<and>
      processed_count + failed_count = length (filter (\<lambda>x. \<not> is_sidecar x) files) \<and>
      visited (stdout w')
        = visited (stdout (world0 tree1)) @ filter (\<lambda>x. \<not> is_sidecar x) files \<and>
      (\<exists>calls. dispatched w' = dispatched (world0 tree1) @ calls \<and>
         (\<forall>c \<in> set calls. \<not> is_sidecar (fst (snd c)) \<and> fst (snd c) \<in> set files)))"
proof -
  have h: "is_dir (tree (world0 tree1)) [''in'']"
    by (simp add: is_dir_def world0_def tree1_def)
  show ?thesis
    using h cook_directory_counts [OF h, where recursive = True and L = demo_libs
        and output_dir = "[''out'']"]
    by (rule conjI)
qed


text \<open>
  Claim C7. In non-recursive mode \<^verbatim>\<open>cook_directory\<close> enumerates the regular files that are
  entries of the input directory itself, all of them and nothing else: every file it counts,
  announces or hands to a processor is the input directory joined with one name, so no file
  of a subdirectory is visited or counted.
\<close>

theorem cook_directory_non_recursive:
  assumes "lookup (tree w) input_dir = Some (Dir es)"
  shows "\<exists>direct processed_count failed_count w'.
           direct = filter (is_file (tree w)) (map (\<lambda>e. input_dir @ [fst e]) es) \<and>
           files_to_process (tree w) input_dir False = Inr direct \<and>
           cook_directory L input_dir output_dir False w
             = Inr ((processed_count, failed_count), w') \<and>
           processed_count + failed_count = length (filter (\<lambda>x. \<not> is_sidecar x) direct) \<and>
           visited (stdout w') = visited (stdout w) @ filter (\<lambda>x. \<not> is_sidecar x) direct \<and>
           (\<exists>calls. dispatched w' = dispatched w @ calls \<and>
              (\<forall>c \<in> set calls. fst (snd c) \<in> set direct)) \<and>
           (\<forall>x \<in> set direct. \<exists>n. x = input_dir @ [n] \<and> is_file (tree w) x) \<and>
           (\<forall>n. is_file (tree w) (input_dir @ [n]) \<longrightarrow> input_dir @ [n] \<in> set direct)"
proof -
  let ?direct = "filter (is_file (tree w)) (map (\<lambda>e. input_dir @ [fst e]) es)"
  have dir: "is_dir (tree w) input_dir"
    using assms by (simp add: is_dir_def)
  have fl: "files_to_process (tree w) input_dir False = Inr ?direct"
    by (rule files_non_recursive [OF assms])
  obtain p f w' where
    cd: "cook_directory L input_dir output_dir False w = Inr ((p, f), w')" and
    cnt: "p + f = length (filter (\<lambda>x. \<not> is_sidecar x) ?direct)" and
    vis: "visited (stdout w') = visited (stdout w) @ filter (\<lambda>x. \<not> is_sidecar x) ?direct" and
    dis: "dispatched w' = dispatched w @
             concat (map (call_for input_dir output_dir) (filter (\<lambda>x. \<not> is_sidecar x) ?direct))"
    using cook_directory_walk [OF dir, of False L output_dir] fl by auto
  have mem: "\<forall>c \<in> set (concat (map (call_for input_dir output_dir)
                 (filter (\<lambda>x. \<not> is_sidecar x) ?direct))). fst (snd c) \<in> set ?direct"
    using calls_members [of _ input_dir output_dir "filter (\<lambda>x. \<not> is_sidecar x) ?direct"]
    by auto
  have shape: "\<forall>x \<in> set ?direct. \<exists>n. x = input_dir @ [n] \<and> is_file (tree w) x"
    by auto
  have compl: "\<forall>n. is_file (tree w) (input_dir @ [n]) \<longrightarrow> input_dir @ [n] \<in> set ?direct"
    using files_non_recursive_complete [OF assms] by blast
  show ?thesis
    using fl cd cnt vis dis mem shape compl by blast
qed

theorem cook_directory_non_recursive_witness:
  "lookup (tree (world0 tree1)) [''in''] = Some (Dir entries1) \<and>
   (\<exists>direct processed_count failed_count w'.
      direct = filter (is_file (tree (world0 tree1))) (map (\<lambda>e. [''in''] @ [fst e]) entries1) \<and>
      files_to_process (tree (world0 tree1)) [''in''] False = Inr direct \<and>
      cook_directory demo_libs [''in''] [''out''] False (world0 tree1)
        = Inr ((processed_count, failed_count), w') \<and>
      processed_count + failed_count = length (filter (\<lambda>x. \<not> is_sidecar x) direct) \<and>
      visited (stdout w')
        = visited (stdout (world0 tree1)) @ filter (\<lambda>x. \<not> is_sidecar x) direct \<and>
      (\<exists>calls. dispatched w' = dispatched (world0 tree1) @ calls \<and>
         (\<forall>c \<in> set calls. fst (snd c) \<in> set direct)) \<and>
      (\<forall>x \<in> set direct. \<exists>n. x = [''in''] @ [n] \<and> is_file (tree (world0 tree1)) x) \<and>
      (\<forall>n. is_file (tree (world0 tree1)) ([''in''] @ [n]) \<longrightarrow> [''in''] @ [n] \<in> set direct))"
proof -
  have h: "lookup (tree (world0 tree1)) [''in''] = Some (Dir entries1)"
    by (simp add: world0_def tree1_def)
  show ?thesis
    using h cook_directory_non_recursive [OF h, where L = demo_libs and output_dir = "[''out'']"]
    by (rule conjI)
qed

lemma cook_directory_non_recursive_example:
  "map_sum id (\<lambda>r. (fst r, visited (stdout (snd r))))
     (cook_directory demo_libs [''in''] [''out''] False (world0 tree1))
     = Inr ((1, 1), [[''in'', ''a.png''], [''in'', ''c.xyz'']])"
  by (simp add: tree1_def entries1_def cook_eval fs_eval path_eval Let_def)


text \<open>
  Claim C8. For every file the walk hands to a processor, the output path of the call is
  the output directory joined with the path of the file relative to the input directory;
  the calls are made for the enumerated files that are not metadata files and have a
  processor, in order.
\<close>

theorem output_path_rerooted:
  assumes "is_dir (tree w) input_dir"
  shows "\<exists>files counts w' calls.
           files_to_process (tree w) input_dir recursive = Inr files \<and>
           cook_directory L input_dir output_dir recursive w = Inr (counts, w') \<and>
           dispatched w' = dispatched w @ calls \<and>
           map (fst \<circ> snd) calls
             = filter (\<lambda>x. get_processor x \<noteq> None) (filter (\<lambda>x. \<not> is_sidecar x) files) \<and>
           (\<forall>c \<in> set calls. \<exists>rel.
              relative_to (fst (snd c)) input_dir = Some rel \<and>
              fst (snd c) = input_dir @ rel \<and>
              snd (snd c) = output_dir @ rel \<and>
              get_processor (fst (snd c)) = Some (fst c))"
proof -
  obtain files p f w' where
    fl: "files_to_process (tree w) input_dir recursive = Inr files" and
    cd: "cook_directory L input_dir output_dir recursive w = Inr ((p, f), w')" and
    dis: "dispatched w' = dispatched w @
             concat (map (call_for input_dir output_dir) (filter (\<lambda>x. \<not> is_sidecar x) files))"
    using cook_directory_walk [OF assms, of recursive L output_dir] by blast
  let ?calls = "concat (map (call_for input_dir output_dir) (filter (\<lambda>x. \<not> is_sidecar x) files))"
  have pre: "\<forall>x \<in> set files. prefix input_dir x"
    using files_to_process_dir [OF assms, of recursive] fl by auto
  have each: "\<exists>rel. relative_to (fst (snd c)) input_dir = Some rel \<and>
                fst (snd c) = input_dir @ rel \<and> snd (snd c) = output_dir @ rel \<and>
                get_processor (fst (snd c)) = Some (fst c)"
    if c: "c \<in> set ?calls" for c
  proof -
    have m: "fst (snd c) \<in> set (filter (\<lambda>x. \<not> is_sidecar x) files)"
      and g: "get_processor (fst (snd c)) = Some (fst c)"
      and r: "snd (snd c) = rerooted input_dir output_dir (fst (snd c))"
      using calls_members [OF c] by auto
    have "prefix input_dir (fst (snd c))" using m pre by auto
    then obtain rel where rel: "fst (snd c) = input_dir @ rel"
      by (auto simp: prefix_def)
    then show ?thesis using g r by (simp add: relative_to_def rerooted_def)
  qed
  show ?thesis
    using fl cd dis calls_inputs [of input_dir output_dir "filter (\<lambda>x. \<not> is_sidecar x) files"] each
    by blast
qed

theorem output_path_rerooted_witness:
  "is_dir (tree (world0 tree1)) [''in''] \<and>
   (\<exists>files counts w' calls.
      files_to_process (tree (world0 tree1)) [''in''] True = Inr files \<and>
      cook_directory demo_libs [''in''] [''out''] True (world0 tree1) = Inr (counts, w') \<and>
      dispatched w' = dispatched (world0 tree1) @ calls \<and>
      map (fst \<circ> snd) calls
        = filter (\<lambda>x. get_processor x \<noteq> None) (filter (\<lambda>x. \<not> is_sidecar x) files) \<and>
      (\<forall>c \<in> set calls. \<exists>rel.
         relative_to (fst (snd c)) [''in''] = Some rel \<and>
         fst (snd c) = [''in''] @ rel \<and>
         snd (snd c) = [''out''] @ rel \<and>
         get_processor (fst (snd c)) = Some (fst c)))"
proof -
  have h: "is_dir (tree (world0 tree1)) [''in'']"
    by (simp add: is_dir_def world0_def tree1_def)
  show ?thesis
    using h output_path_rerooted [OF h, where recursive = True and L = demo_libs
        and output_dir = "[''out'']"]
    by (rule conjI)
qed

lemma output_path_example:
  "map_sum id (dispatched \<circ> snd) (cook_directory demo_libs [''in''] [''out''] True (world0 tree1))
     = Inr [(TextureProcessor, [''in'', ''a.png''], [''out'', ''a.png'']),
            (ShaderProcessor, [''in'', ''sub'', ''b.frag''], [''out'', ''sub'', ''b.frag''])]"
  by (simp add: tree1_def entries1_def cook_eval fs_eval path_eval Let_def)


text \<open>
  Claim C10. Called with an input directory that does not exist, \<^verbatim>\<open>cook_directory\<close>
  returns \<open>(0, 0)\<close> without an exception, with the file system untouched and no processor
  called; an empty input directory gives the same counts and the same untouched file
  system. The command line is where a missing input path ends the run with status 1.
\<close>

theorem cook_directory_missing_input:
  assumes "\<not> path_exists (tree w) input_dir"
  shows "cook_directory L input_dir output_dir recursive w
           = Inr ((0, 0), print w (InputDirMissing input_dir)) \<and>
         tree (print w (InputDirMissing input_dir)) = tree w \<and>
         dispatched (print w (InputDirMissing input_dir)) = dispatched w \<and>
         (\<forall>w2. lookup (tree w2) input_dir = Some (Dir []) \<longrightarrow>
            cook_directory L input_dir output_dir recursive w2 = Inr ((0, 0), w2)) \<and>
         (\<forall>a. arg_input a = input_dir \<longrightarrow>
            main L a w = Inr (1, print w (InputPathMissing input_dir)))"
proof (intro conjI allI impI)
  show "cook_directory L input_dir output_dir recursive w
           = Inr ((0, 0), print w (InputDirMissing input_dir))"
    using assms by (simp add: cook_directory_def)
  show "tree (print w (InputDirMissing input_dir)) = tree w"
    by (simp add: print_def)
  show "dispatched (print w (InputDirMissing input_dir)) = dispatched w"
    by (simp add: print_def)
next
  fix w2 :: world
  assume "lookup (tree w2) input_dir = Some (Dir [])"
  then show "cook_directory L input_dir output_dir recursive w2 = Inr ((0, 0), w2)"
    by (rule cook_directory_empty)
next
  fix a :: args
  assume "arg_input a = input_dir"
  then show "main L a w = Inr (1, print w (InputPathMissing input_dir))"
    using assms main_missing_input [of w a L] by simp
qed

theorem cook_directory_missing_input_witness:
  "\<not> path_exists (tree (world0 tree1)) [''nowhere''] \<and>
   cook_directory demo_libs [''nowhere''] [''out''] True (world0 tree1)
     = Inr ((0, 0), print (world0 tree1) (InputDirMissing [''nowhere''])) \<and>
   lookup (tree (world0 (Dir [(''nowhere'', Dir [])]))) [''nowhere''] = Some (Dir []) \<and>
   cook_directory demo_libs [''nowhere''] [''out''] True (world0 (Dir [(''nowhere'', Dir [])]))
     = Inr ((0, 0), world0 (Dir [(''nowhere'', Dir [])])) \<and>
   main demo_libs \<lparr>arg_input = [''nowhere''], arg_output = [''out''], arg_recursive = True,
       arg_generate_manifest = True, arg_force = False, arg_verbose = False\<rparr> (world0 tree1)
     = Inr (1, print (world0 tree1) (InputPathMissing [''nowhere'']))"
proof -
  have h: "\<not> path_exists (tree (world0 tree1)) [''nowhere'']"
    by (simp add: path_exists_def world0_def tree1_def entries1_def)
  have e: "lookup (tree (world0 (Dir [(''nowhere'', Dir [])]))) [''nowhere''] = Some (Dir [])"
    by (simp add: world0_def)
  show ?thesis
    using h e cook_directory_missing_input [OF h, where L = demo_libs
        and output_dir = "[''out'']" and recursive = True]
    by simp
qed


text \<open>
  Claim C3, as amended. For every file whose extension no registered handler claims,
  resolution gives no processor, \<^verbatim>\<open>cook_asset\<close> returns failure and changes nothing but the
  printed lines, and, when the file does not bear the \<^verbatim>\<open>.json\<close> extension, the walk
  counts it as failed and goes on with the remaining files.
\<close>

theorem unclaimed_extension_fails:
  assumes "\<forall>pr \<in> set processors. \<not> can_process pr file_path"
  shows "get_processor file_path = None \<and>
         cook_asset L file_path output_path w = (False, print w (NoProcessorFound file_path)) \<and>
         tree (print w (NoProcessorFound file_path)) = tree w \<and>
         dispatched (print w (NoProcessorFound file_path)) = dispatched w \<and>
         (\<not> is_sidecar file_path \<longrightarrow> prefix input_dir file_path \<longrightarrow>
            cook_files L input_dir output_dir (file_path # files) (processed_count, failed_count) w
              = cook_files L input_dir output_dir files (processed_count, failed_count + 1)
                  (print (print w (Processing file_path)) (NoProcessorFound file_path)))"
proof -
  have g: "get_processor file_path = None"
    using assms by (simp add: get_processor_def find_None_iff)
  have c: "cook_asset L file_path o' w' = (False, print w' (NoProcessorFound file_path))"
    for o' w'
    using g by (simp add: cook_asset_def)
  show ?thesis
    using g c by (auto simp: print_def relative_to_def is_sidecar_def)
qed

theorem unclaimed_extension_fails_witness:
  "\<not> (\<exists>pr \<in> set processors. can_process pr [''in'', ''c.xyz'']) \<and>
   get_processor [''in'', ''c.xyz''] = None \<and>
   cook_asset demo_libs [''in'', ''c.xyz''] [''out'', ''c.xyz''] (world0 tree1)
     = (False, print (world0 tree1) (NoProcessorFound [''in'', ''c.xyz''])) \<and>
   \<not> is_sidecar [''in'', ''c.xyz''] \<and> prefix [''in''] [''in'', ''c.xyz''] \<and>
   cook_files demo_libs [''in''] [''out''] [[''in'', ''c.xyz'']] (0, 0) (world0 tree1)
     = cook_files demo_libs [''in''] [''out''] [] (0, 0 + 1)
         (print (print (world0 tree1) (Processing [''in'', ''c.xyz'']))
            (NoProcessorFound [''in'', ''c.xyz'']))"
proof -
  have h: "\<forall>pr \<in> set processors. \<not> can_process pr [''in'', ''c.xyz'']"
    by (simp add: processors_def can_process_def path_eval)
  have s: "\<not> is_sidecar [''in'', ''c.xyz'']"
    by (simp add: is_sidecar_def path_eval)
  have p: "prefix [''in''] [''in'', ''c.xyz'']"
    by simp
  show ?thesis
    using h s p unclaimed_extension_fails [OF h, where L = demo_libs
        and output_path = "[''out'', ''c.xyz'']" and w = "world0 tree1"
        and input_dir = "[''in'']" and output_dir = "[''out'']" and files = "[]"
        and processed_count = 0 and failed_count = 0]
    by blast
qed

theorem sidecar_neither_processed_nor_failed:
  "get_processor [''in'', ''notes.json''] = None \<and>
   is_file tree2 [''in'', ''notes.json''] \<and>
   cook_directory demo_libs [''in''] [''out''] True (world0 tree2) = Inr ((0, 0), world0 tree2)"
  by (simp add: tree2_def cook_eval fs_eval path_eval)


section \<open>What the processors write\<close>

text \<open>
  Claim C6. For every model or audio source file the processor copies the source file byte
  for byte to the output path and writes the metadata file beside it. The code breaks this
  when the output path is an existing directory: both processors report success, yet the
  output path is still a directory and holds no copy, the copy lies inside it under the
  name of the source, and the metadata file lies beside the directory, not beside the copy.
  The texture and the shader processor refuse the same output path, and the command line
  ends such a run with status 0.
\<close>

theorem copy_lands_inside_existing_directory:
  "is_dir (tree (world0 tree3)) [''out''] \<and>
   read_file (tree (world0 tree3)) [''m.obj''] = Some ''v 0 0 0'' \<and>
   fst (process demo_libs ModelProcessor [''m.obj''] [''out''] (world0 tree3)) \<and>
   is_dir (tree (snd (process demo_libs ModelProcessor [''m.obj''] [''out''] (world0 tree3))))
     [''out''] \<and>
   read_file (tree (snd (process demo_libs ModelProcessor [''m.obj''] [''out''] (world0 tree3))))
     [''out'', ''m.obj''] = Some ''v 0 0 0'' \<and>
   is_file (tree (snd (process demo_libs ModelProcessor [''m.obj''] [''out''] (world0 tree3))))
     [''out.json''] \<and>
   read_file (tree (world0 tree3)) [''s.wav''] = Some ''RIFF'' \<and>
   fst (process demo_libs AudioProcessor [''s.wav''] [''out''] (world0 tree3)) \<and>
   is_dir (tree (snd (process demo_libs AudioProcessor [''s.wav''] [''out''] (world0 tree3))))
     [''out''] \<and>
   read_file (tree (snd (process demo_libs AudioProcessor [''s.wav''] [''out''] (world0 tree3))))
     [''out'', ''s.wav''] = Some ''RIFF'' \<and>
   is_file (tree (snd (process demo_libs AudioProcessor [''s.wav''] [''out''] (world0 tree3))))
     [''out.json''] \<and>
   \<not> fst (process demo_libs TextureProcessor [''t.png''] [''out''] (world0 tree3)) \<and>
   \<not> fst (process demo_libs ShaderProcessor [''b.frag''] [''out''] (world0 tree3)) \<and>
   map_sum id fst
     (main demo_libs
        \<lparr>arg_input = [''m.obj''], arg_output = [''out''], arg_recursive = True,
         arg_generate_manifest = False, arg_force = False, arg_verbose = False\<rparr>
        (world0 tree3)) = Inr 0"
  by (simp add: process_run tree3_def ModelProcessor_process_def AudioProcessor_process_def
      TextureProcessor_process_def ShaderProcessor_process_def main_def cook_eval fs_eval
      path_eval)

text \<open>Where the output path is not an existing directory the two processors do what the
  claim says: the bytes of the source are written to the output path, then the metadata
  file, with empty lists for a model and zeros for a sound.\<close>

lemma pass_through_copy:
  assumes "pr = ModelProcessor \<or> pr = AudioProcessor"
    and "process L pr input_path output_path w = (True, w')"
    and "\<not> is_dir (tree w) output_path"
  shows "\<exists>b f1 f2 metadata_path.
      read_file (tree w) input_path = Some b \<and>
      mkdir_p (tree w) (path_parent output_path) = Some f1 \<and>
      write_file f1 output_path b = Some f2 \<and>
      read_file f2 output_path = Some b \<and>
      with_suffix output_path ''.json'' = Some metadata_path \<and>
      write_file f2 metadata_path
        (json_dump L (if pr = ModelProcessor then model_metadata input_path
                      else audio_metadata input_path)) = Some (tree w') \<and>
      read_file (tree w') metadata_path
        = Some (json_dump L (if pr = ModelProcessor then model_metadata input_path
                             else audio_metadata input_path)) \<and>
      (\<not> is_sidecar output_path \<longrightarrow> read_file (tree w') output_path = Some b) \<and>
      json_get (model_metadata input_path) ''animations'' = Some (JArray []) \<and>
      json_get (model_metadata input_path) ''materials'' = Some (JArray []) \<and>
      json_get (model_metadata input_path) ''meshes'' = Some (JArray []) \<and>
      json_get (audio_metadata input_path) ''duration'' = Some (JFloat 0) \<and>
      json_get (audio_metadata input_path) ''channels'' = Some (JInt 0) \<and>
      json_get (audio_metadata input_path) ''sample_rate'' = Some (JInt 0) \<and>
      json_get (audio_metadata input_path) ''bit_depth'' = Some (JInt 0)"
proof -
  have fields:
    "json_get (model_metadata input_path) ''animations'' = Some (JArray [])"
    "json_get (model_metadata input_path) ''materials'' = Some (JArray [])"
    "json_get (model_metadata input_path) ''meshes'' = Some (JArray [])"
    "json_get (audio_metadata input_path) ''duration'' = Some (JFloat 0)"
    "json_get (audio_metadata input_path) ''channels'' = Some (JInt 0)"
    "json_get (audio_metadata input_path) ''sample_rate'' = Some (JInt 0)"
    "json_get (audio_metadata input_path) ''bit_depth'' = Some (JInt 0)"
    by (simp_all add: json_get_def model_metadata_def audio_metadata_def)
  have run: "try_block pr L input_path output_path (tree w) = (True, tree w')"
    using process_success [OF assms(2)] by simp
  from assms(1) show ?thesis
  proof
    assume m: "pr = ModelProcessor"
    show ?thesis
      using pass_through_steps [OF run [unfolded m try_block.simps ModelProcessor_process_def] assms(3)]
        fields m by simp
  next
    assume a: "pr = AudioProcessor"
    show ?thesis
      using pass_through_steps [OF run [unfolded a try_block.simps AudioProcessor_process_def] assms(3)]
        fields a by simp
  qed
qed

lemma pass_through_copy_audio_example:
  "fst (process demo_libs AudioProcessor [''in'', ''s.wav''] [''out'', ''s.wav''] (world0 tree4)) \<and>
   read_file (tree (snd (process demo_libs AudioProcessor [''in'', ''s.wav''] [''out'', ''s.wav'']
                           (world0 tree4)))) [''out'', ''s.wav''] = Some ''RIFF'' \<and>
   is_file (tree (snd (process demo_libs AudioProcessor [''in'', ''s.wav''] [''out'', ''s.wav'']
                           (world0 tree4)))) [''out'', ''s.json'']"
  by (simp add: process_run tree4_def AudioProcessor_process_def cook_eval fs_eval path_eval)


text \<open>
  Claim C5. For every shader source file, \<^verbatim>\<open>ShaderProcessor.process\<close> writes the text of
  the input, unchanged, to the output path, and the \<^verbatim>\<open>shader_type\<close> of the metadata it
  emits is the stage that the mapping \<^verbatim>\<open>.vert\<close> to vertex, \<^verbatim>\<open>.frag\<close> to fragment, \<^verbatim>\<open>.geom\<close>
  to geometry, \<^verbatim>\<open>.tesc\<close> to tessellation_control, \<^verbatim>\<open>.tese\<close> to tessellation_evaluation,
  \<^verbatim>\<open>.comp\<close> to compute gives to the extension, \<^verbatim>\<open>unknown\<close> for any other extension.
  Extensions are compared without regard to case, as the registry compares them, so a file
  that the registry hands to this processor never gets \<^verbatim>\<open>unknown\<close>. The processor returns
  \<^verbatim>\<open>True\<close> whenever the input can be read as text and the two files can be written, and
  its writes are then these two.
\<close>

theorem shader_identity_transform:
  "(\<forall>w'. process L ShaderProcessor input_path output_path w = (True, w') \<longrightarrow>
      (\<exists>b source f1 f2 metadata_path.
         read_file (tree w) input_path = Some b \<and>
         text_decode L b = Some source \<and>
         mkdir_p (tree w) (path_parent output_path) = Some f1 \<and>
         write_file f1 output_path (text_encode L source) = Some f2 \<and>
         read_file f2 output_path = Some (text_encode L source) \<and>
         with_suffix output_path ''.json'' = Some metadata_path \<and>
         write_file f2 metadata_path (json_dump L (shader_metadata input_path))
           = Some (tree w') \<and>
         read_file (tree w') metadata_path
           = Some (json_dump L (shader_metadata input_path)) \<and>
         (\<not> is_sidecar output_path \<longrightarrow>
            read_file (tree w') output_path = Some (text_encode L source)))) \<and>
   (\<forall>b source metadata_path.
      read_file (tree w) input_path = Some b \<longrightarrow>
      text_decode L b = Some source \<longrightarrow>
      (\<forall>p. prefix p (path_parent output_path) \<longrightarrow> \<not> is_file (tree w) p) \<longrightarrow>
      with_suffix output_path ''.json'' = Some metadata_path \<longrightarrow>
      \<not> is_dir (tree w) output_path \<longrightarrow>
      \<not> is_dir (tree w) metadata_path \<longrightarrow>
      fst (process L ShaderProcessor input_path output_path w)) \<and>
   json_get (shader_metadata input_path) ''shader_type''
     = Some (JString (get_shader_type (path_suffix input_path))) \<and>
   (\<forall>extension. get_shader_type extension =
      (if lower extension = ''.vert'' then ''vertex''
       else if lower extension = ''.frag'' then ''fragment''
       else if lower extension = ''.geom'' then ''geometry''
       else if lower extension = ''.tesc'' then ''tessellation_control''
       else if lower extension = ''.tese'' then ''tessellation_evaluation''
       else if lower extension = ''.comp'' then ''compute''
       else ''unknown'')) \<and>
   (get_processor input_path = Some ShaderProcessor \<longrightarrow>
      map_of type_map (lower (path_suffix input_path))
        = Some (get_shader_type (path_suffix input_path)) \<and>
      get_shader_type (path_suffix input_path) \<noteq> ''unknown'')"
proof (intro conjI allI impI)
  fix w'
  assume "process L ShaderProcessor input_path output_path w = (True, w')"
  then have run: "ShaderProcessor_process L input_path output_path (tree w) = (True, tree w')"
    using process_success by fastforce
  show "\<exists>b source f1 f2 metadata_path.
         read_file (tree w) input_path = Some b \<and>
         text_decode L b = Some source \<and>
         mkdir_p (tree w) (path_parent output_path) = Some f1 \<and>
         write_file f1 output_path (text_encode L source) = Some f2 \<and>
         read_file f2 output_path = Some (text_encode L source) \<and>
         with_suffix output_path ''.json'' = Some metadata_path \<and>
         write_file f2 metadata_path (json_dump L (shader_metadata input_path))
           = Some (tree w') \<and>
         read_file (tree w') metadata_path
           = Some (json_dump L (shader_metadata input_path)) \<and>
         (\<not> is_sidecar output_path \<longrightarrow>
            read_file (tree w') output_path = Some (text_encode L source))"
    by (rule shader_steps [OF run])
next
  fix b source metadata_path
  assume "read_file (tree w) input_path = Some b"
    and "text_decode L b = Some source"
    and "\<forall>p. prefix p (path_parent output_path) \<longrightarrow> \<not> is_file (tree w) p"
    and "with_suffix output_path ''.json'' = Some metadata_path"
    and "\<not> is_dir (tree w) output_path"
    and "\<not> is_dir (tree w) metadata_path"
  then show "fst (process L ShaderProcessor input_path output_path w)"
    by (rule shader_process_succeeds)
next
  show "json_get (shader_metadata input_path) ''shader_type''
      = Some (JString (get_shader_type (path_suffix input_path)))"
    by (simp add: json_get_def shader_metadata_def)
next
  fix extension
  show "get_shader_type extension =
      (if lower extension = ''.vert'' then ''vertex''
       else if lower extension = ''.frag'' then ''fragment''
       else if lower extension = ''.geom'' then ''geometry''
       else if lower extension = ''.tesc'' then ''tessellation_control''
       else if lower extension = ''.tese'' then ''tessellation_evaluation''
       else if lower extension = ''.comp'' then ''compute''
       else ''unknown'')"
    by (simp add: get_shader_type_def type_map_def)
next
  assume "get_processor input_path = Some ShaderProcessor"
  then show "map_of type_map (lower (path_suffix input_path))
        = Some (get_shader_type (path_suffix input_path))"
    using shader_stage_known by blast
next
  assume "get_processor input_path = Some ShaderProcessor"
  then show "get_shader_type (path_suffix input_path) \<noteq> ''unknown''"
    using shader_stage_known by blast
qed

theorem shader_identity_transform_witness:
  "get_processor [''in'', ''b.frag''] = Some ShaderProcessor \<and>
   read_file (tree (world0 tree4)) [''in'', ''b.frag''] = Some ''void main(){}'' \<and>
   text_decode demo_libs ''void main(){}'' = Some ''void main(){}'' \<and>
   with_suffix [''out'', ''b.frag''] ''.json'' = Some [''out'', ''b.json''] \<and>
   \<not> is_dir (tree (world0 tree4)) [''out'', ''b.frag''] \<and>
   \<not> is_dir (tree (world0 tree4)) [''out'', ''b.json''] \<and>
   process demo_libs ShaderProcessor [''in'', ''b.frag''] [''out'', ''b.frag''] (world0 tree4)
     = (True, snd (process demo_libs ShaderProcessor [''in'', ''b.frag''] [''out'', ''b.frag'']
                     (world0 tree4))) \<and>
   read_file (tree (snd (process demo_libs ShaderProcessor [''in'', ''b.frag''] [''out'', ''b.frag'']
                           (world0 tree4))))
     [''out'', ''b.frag''] = Some ''void main(){}'' \<and>
   read_file (tree (snd (process demo_libs ShaderProcessor [''in'', ''b.frag''] [''out'', ''b.frag'']
                           (world0 tree4))))
     [''out'', ''b.json''] = Some (json_dump demo_libs (shader_metadata [''in'', ''b.frag''])) \<and>
   json_get (shader_metadata [''in'', ''b.frag'']) ''shader_type'' = Some (JString ''fragment'') \<and>
   get_shader_type (path_suffix [''in'', ''b.frag'']) \<noteq> ''unknown''"
proof -
  let ?w = "snd (process demo_libs ShaderProcessor [''in'', ''b.frag''] [''out'', ''b.frag'']
                   (world0 tree4))"
  note th = shader_identity_transform [where L = demo_libs and input_path = "[''in'', ''b.frag'']"
      and output_path = "[''out'', ''b.frag'']" and w = "world0 tree4"]
  have gp: "get_processor [''in'', ''b.frag''] = Some ShaderProcessor"
    by (simp add: get_processor_def can_process_def processors_def path_eval)
  have src: "read_file (tree (world0 tree4)) [''in'', ''b.frag''] = Some ''void main(){}''"
    by (simp add: world0_def tree4_def read_file_def)
  have td: "text_decode demo_libs ''void main(){}'' = Some ''void main(){}''"
    by (simp add: demo_libs_def)
  have te: "text_encode demo_libs ''void main(){}'' = ''void main(){}''"
    by (simp add: demo_libs_def)
  have ws: "with_suffix [''out'', ''b.frag''] ''.json'' = Some [''out'', ''b.json'']"
    by (simp add: path_eval)
  have nd: "\<not> is_dir (tree (world0 tree4)) [''out'', ''b.frag'']"
    and ndm: "\<not> is_dir (tree (world0 tree4)) [''out'', ''b.json'']"
    by (simp_all add: world0_def tree4_def is_dir_def)
  have anc: "\<forall>p. prefix p (path_parent [''out'', ''b.frag'']) \<longrightarrow> \<not> is_file (tree (world0 tree4)) p"
    by (auto simp: path_parent_def prefix_Cons world0_def tree4_def is_file_def)
  have ns: "\<not> is_sidecar [''out'', ''b.frag'']"
    by (simp add: is_sidecar_def path_eval)
  have sx: "path_suffix [''in'', ''b.frag''] = ''.frag''" and lw: "lower ''.frag'' = ''.frag''"
    by (simp_all add: path_eval)
  have ok: "fst (process demo_libs ShaderProcessor [''in'', ''b.frag''] [''out'', ''b.frag'']
                   (world0 tree4))"
    using th src td anc ws nd ndm by blast
  have run: "process demo_libs ShaderProcessor [''in'', ''b.frag''] [''out'', ''b.frag'']
               (world0 tree4) = (True, ?w)"
    using ok by (simp add: prod_eq_iff)
  note steps = th [THEN conjunct1, THEN spec, THEN mp, OF run]
  from steps obtain b source mp where
    "read_file (tree (world0 tree4)) [''in'', ''b.frag''] = Some b"
    "text_decode demo_libs b = Some source"
    "with_suffix [''out'', ''b.frag''] ''.json'' = Some mp"
    "read_file (tree ?w) mp = Some (json_dump demo_libs (shader_metadata [''in'', ''b.frag'']))"
    "read_file (tree ?w) [''out'', ''b.frag''] = Some (text_encode demo_libs source)"
    using ns by (elim exE conjE) (rule that; simp)
  then have out: "read_file (tree ?w) [''out'', ''b.frag''] = Some ''void main(){}''"
    and meta: "read_file (tree ?w) [''out'', ''b.json'']
                 = Some (json_dump demo_libs (shader_metadata [''in'', ''b.frag'']))"
    using src td te ws by simp_all
  have st: "json_get (shader_metadata [''in'', ''b.frag'']) ''shader_type''
              = Some (JString ''fragment'')"
    using th sx lw by simp
  have un: "get_shader_type (path_suffix [''in'', ''b.frag'']) \<noteq> ''unknown''"
    using th gp by blast
  show ?thesis
    using gp src td ws nd ndm run out meta st un by (intro conjI)
qed

lemma upper_case_extension_example:
  "get_processor [''shaders'', ''A.VERT''] = Some ShaderProcessor \<and>
   get_shader_type (path_suffix [''shaders'', ''A.VERT'']) = ''vertex'' \<and>
   json_get (shader_metadata [''shaders'', ''A.VERT'']) ''shader_type''
     = Some (JString ''vertex'')"
  by (simp add: get_shader_type_def type_map_def json_get_def shader_metadata_def
      get_processor_def can_process_def processors_def path_eval)


section \<open>The manifest\<close>

text \<open>
  Claim C2, as amended. When \<^verbatim>\<open>generate_asset_manifest\<close> succeeds, the manifest it has
  written to \<^verbatim>\<open>manifest.json\<close> in the output directory has \<^verbatim>\<open>asset_count\<close> equal to the
  length of \<^verbatim>\<open>assets\<close>, and every entry was read from a metadata file whose name is not
  \<^verbatim>\<open>manifest.json\<close>; the \<^verbatim>\<open>path\<close> of an entry is the path of that file without its last
  suffix, relative to the output directory.
\<close>

theorem manifest_count_and_sources:
  assumes "generate_asset_manifest L output_dir w = (True, w')"
  shows "\<exists>assets.
           read_file (tree w') (output_dir @ [''manifest.json''])
             = Some (json_dump L (manifest_of assets)) \<and>
           json_get (manifest_of assets) ''asset_count'' = Some (JInt (int (length assets))) \<and>
           json_get (manifest_of assets) ''assets'' = Some (JArray assets) \<and>
           (\<forall>a \<in> set assets.
              \<exists>m \<in> set (rglob (tree w) output_dir glob_json).
                path_name m \<noteq> ''manifest.json'' \<and>
                read_metadata L (tree w) output_dir m = Some a \<and>
                (\<exists>asset_file rel.
                   with_suffix m [] = Some asset_file \<and>
                   relative_to asset_file output_dir = Some rel \<and>
                   json_get a ''path'' = Some (JString (path_str rel))))"
proof -
  let ?assets = "List.map_filter (read_metadata L (tree w) output_dir)
                   (manifest_sources (tree w) output_dir)"
  obtain f where wr: "write_file (tree w) (output_dir @ [''manifest.json''])
                        (json_dump L (manifest_of ?assets)) = Some f"
    and w': "tree w' = f"
    using assms by (auto simp: generate_asset_manifest_result split: option.splits)
  have rd: "read_file (tree w') (output_dir @ [''manifest.json''])
              = Some (json_dump L (manifest_of ?assets))"
    using write_file_read_same [OF wr] w' by simp
  have src: "\<forall>a \<in> set ?assets.
              \<exists>m \<in> set (rglob (tree w) output_dir glob_json).
                path_name m \<noteq> ''manifest.json'' \<and>
                read_metadata L (tree w) output_dir m = Some a \<and>
                (\<exists>asset_file rel.
                   with_suffix m [] = Some asset_file \<and>
                   relative_to asset_file output_dir = Some rel \<and>
                   json_get a ''path'' = Some (JString (path_str rel)))"
  proof
    fix a
    assume "a \<in> set ?assets"
    then obtain m where m: "m \<in> set (rglob (tree w) output_dir glob_json)"
      "path_name m \<noteq> ''manifest.json''" "read_metadata L (tree w) output_dir m = Some a"
      by (auto simp: List.map_filter_def manifest_sources_def)
    then show "\<exists>m \<in> set (rglob (tree w) output_dir glob_json).
                path_name m \<noteq> ''manifest.json'' \<and>
                read_metadata L (tree w) output_dir m = Some a \<and>
                (\<exists>asset_file rel.
                   with_suffix m [] = Some asset_file \<and>
                   relative_to asset_file output_dir = Some rel \<and>
                   json_get a ''path'' = Some (JString (path_str rel)))"
      using read_metadata_path [OF m(3)] by blast
  qed
  have cnt: "json_get (manifest_of ?assets) ''asset_count'' = Some (JInt (int (length ?assets)))"
    and arr: "json_get (manifest_of ?assets) ''assets'' = Some (JArray ?assets)"
    by (simp_all add: json_get_def manifest_of_def)
  show ?thesis using rd cnt arr src by blast
qed

theorem manifest_count_and_sources_witness:
  "generate_asset_manifest demo_libs [''out''] (world0 tree6)
     = (True, snd (generate_asset_manifest demo_libs [''out''] (world0 tree6))) \<and>
   (\<exists>assets.
      read_file (tree (snd (generate_asset_manifest demo_libs [''out''] (world0 tree6))))
          ([''out''] @ [''manifest.json''])
        = Some (json_dump demo_libs (manifest_of assets)) \<and>
      json_get (manifest_of assets) ''asset_count'' = Some (JInt (int (length assets))) \<and>
      json_get (manifest_of assets) ''assets'' = Some (JArray assets) \<and>
      (\<forall>a \<in> set assets.
         \<exists>m \<in> set (rglob (tree (world0 tree6)) [''out''] glob_json).
           path_name m \<noteq> ''manifest.json'' \<and>
           read_metadata demo_libs (tree (world0 tree6)) [''out''] m = Some a \<and>
           (\<exists>asset_file rel.
              with_suffix m [] = Some asset_file \<and>
              relative_to asset_file [''out''] = Some rel \<and>
              json_get a ''path'' = Some (JString (path_str rel)))))"
proof -
  have ok: "fst (generate_asset_manifest demo_libs [''out''] (world0 tree6))"
    by (simp add: tree6_def world0_def demo_libs_def manifest_eval fs_eval path_eval)
  have run: "generate_asset_manifest demo_libs [''out''] (world0 tree6)
     = (True, snd (generate_asset_manifest demo_libs [''out''] (world0 tree6)))"
    using ok by (simp add: prod_eq_iff)
  show ?thesis
    using run manifest_count_and_sources [OF run] by (rule conjI)
qed

theorem entry_path_equals_manifest_filename:
  "with_suffix [''out'', ''manifest.json.png''] ''.json'' = Some [''out'', ''manifest.json.json''] \<and>
   manifest_sources tree5 [''out''] = [[''out'', ''manifest.json.json'']] \<and>
   fst (generate_asset_manifest demo_libs [''out''] (world0 tree5)) \<and>
   read_file (tree (snd (generate_asset_manifest demo_libs [''out''] (world0 tree5))))
       [''out'', ''manifest.json'']
     = Some (json_dump demo_libs (manifest_of [JObject [(''path'', JString ''manifest.json'')]])) \<and>
   json_get (JObject [(''path'', JString ''manifest.json'')]) ''path''
     = Some (JString ''manifest.json'')"
  by (simp add: tree5_def world0_def demo_libs_def manifest_eval fs_eval path_eval)


text \<open>
  Claim C9. During manifest generation a metadata file that fails to parse is logged and
  left out of the assets, aggregation continues with the remaining metadata files, and the
  manifest is still written. Whenever the output directory exists and \<^verbatim>\<open>manifest.json\<close> in
  it is not a directory, generation succeeds whatever the metadata files hold; the assets
  are the records of all the files below the output directory that are named \<^verbatim>\<open>*.json\<close>
  but not \<^verbatim>\<open>manifest.json\<close> and that parse to an object, each with its path attached and
  in the order of enumeration, and one line is printed for each of the others.
\<close>

theorem parse_failure_is_not_fatal:
  assumes "is_dir (tree w) output_dir"
    and "\<not> is_dir (tree w) (output_dir @ [''manifest.json''])"
  shows "\<exists>w'.
           generate_asset_manifest L output_dir w = (True, w') \<and>
           read_file (tree w') (output_dir @ [''manifest.json''])
             = Some (json_dump L (manifest_of
                  (List.map_filter (asset_record L (tree w) output_dir)
                     (manifest_sources (tree w) output_dir)))) \<and>
           stdout w' = stdout w @
             map ErrorReadingMetadata
               (filter (\<lambda>m. parsed_record L (tree w) m = None)
                  (manifest_sources (tree w) output_dir))
             @ [GeneratedManifest (output_dir @ [''manifest.json''])] \<and>
           (\<forall>m b. read_file (tree w) m = Some b \<longrightarrow> json_load L b = None \<longrightarrow>
              parsed_record L (tree w) m = None \<and>
              asset_record L (tree w) output_dir m = None \<and>
              read_metadata L (tree w) output_dir m = None) \<and>
           (\<forall>m b kvs. read_file (tree w) m = Some b \<longrightarrow> json_load L b = Some (JObject kvs) \<longrightarrow>
              asset_record L (tree w) output_dir m
                = Some (JObject (AList.update ''path''
                          (JString (path_str (asset_path output_dir m))) kvs))) \<and>
           (\<forall>r. r \<noteq> [] \<longrightarrow> path_exists (tree w) (output_dir @ r) \<longrightarrow>
              suffix ''.json'' (last r) \<longrightarrow> last r \<noteq> ''manifest.json'' \<longrightarrow>
              output_dir @ r \<in> set (manifest_sources (tree w) output_dir)) \<and>
           (\<forall>x \<in> set (manifest_sources (tree w) output_dir).
              \<exists>r. x = output_dir @ r \<and> r \<noteq> [] \<and> suffix ''.json'' (last r) \<and>
                  last r \<noteq> ''manifest.json'')"
proof -
  let ?doc = "json_dump L (manifest_of
                  (List.map_filter (asset_record L (tree w) output_dir)
                     (manifest_sources (tree w) output_dir)))"
  obtain f where wr: "write_file (tree w) (output_dir @ [''manifest.json'']) ?doc = Some f"
    using write_file_succeeds [OF assms] by blast
  have rd: "read_file f (output_dir @ [''manifest.json'']) = Some ?doc"
    by (rule write_file_read_same [OF wr])
  have run: "generate_asset_manifest L output_dir w =
      (True, w\<lparr>tree := f, stdout := stdout w @
              map ErrorReadingMetadata
                (filter (\<lambda>m. parsed_record L (tree w) m = None)
                   (manifest_sources (tree w) output_dir))
              @ [GeneratedManifest (output_dir @ [''manifest.json''])]\<rparr>)"
    using wr by (simp add: generate_asset_manifest_result manifest_sources_records)
  have bad: "\<forall>m b. read_file (tree w) m = Some b \<longrightarrow> json_load L b = None \<longrightarrow>
              parsed_record L (tree w) m = None \<and>
              asset_record L (tree w) output_dir m = None \<and>
              read_metadata L (tree w) output_dir m = None"
    by (simp add: parsed_record_def asset_record_def read_metadata_def)
  have good: "\<forall>m b kvs. read_file (tree w) m = Some b \<longrightarrow> json_load L b = Some (JObject kvs) \<longrightarrow>
              asset_record L (tree w) output_dir m
                = Some (JObject (AList.update ''path''
                          (JString (path_str (asset_path output_dir m))) kvs))"
    by (simp add: parsed_record_def asset_record_def)
  have compl: "\<forall>r. r \<noteq> [] \<longrightarrow> path_exists (tree w) (output_dir @ r) \<longrightarrow>
              suffix ''.json'' (last r) \<longrightarrow> last r \<noteq> ''manifest.json'' \<longrightarrow>
              output_dir @ r \<in> set (manifest_sources (tree w) output_dir)"
    using manifest_sources_complete by blast
  have sound: "\<forall>x \<in> set (manifest_sources (tree w) output_dir).
              \<exists>r. x = output_dir @ r \<and> r \<noteq> [] \<and> suffix ''.json'' (last r) \<and>
                  last r \<noteq> ''manifest.json''"
    using manifest_sources_sound by blast
  let ?w' = "w\<lparr>tree := f, stdout := stdout w @
              map ErrorReadingMetadata
                (filter (\<lambda>m. parsed_record L (tree w) m = None)
                   (manifest_sources (tree w) output_dir))
              @ [GeneratedManifest (output_dir @ [''manifest.json''])]\<rparr>"
  have t: "tree ?w' = f" and s: "stdout ?w' = stdout w @
              map ErrorReadingMetadata
                (filter (\<lambda>m. parsed_record L (tree w) m = None)
                   (manifest_sources (tree w) output_dir))
              @ [GeneratedManifest (output_dir @ [''manifest.json''])]"
    by simp_all
  show ?thesis
  proof (intro exI [of _ ?w'] conjI)
    show "generate_asset_manifest L output_dir w = (True, ?w')" by (rule run)
    show "read_file (tree ?w') (output_dir @ [''manifest.json'']) = Some ?doc"
      using rd t by (simp only:)
    show "stdout ?w' = stdout w @
              map ErrorReadingMetadata
                (filter (\<lambda>m. parsed_record L (tree w) m = None)
                   (manifest_sources (tree w) output_dir))
              @ [GeneratedManifest (output_dir @ [''manifest.json''])]" by (rule s)
  qed (rule bad good compl sound)+
qed

theorem parse_failure_is_not_fatal_witness:
  "is_dir (tree (world0 tree6)) [''out''] \<and>
   \<not> is_dir (tree (world0 tree6)) ([''out''] @ [''manifest.json'']) \<and>
   manifest_sources (tree (world0 tree6)) [''out'']
     = [[''out'', ''a.json''], [''out'', ''bad.json''], [''out'', ''sub'', ''b.json'']] \<and>
   read_file (tree (world0 tree6)) [''out'', ''bad.json''] = Some ''not json'' \<and>
   json_load demo_libs ''not json'' = None \<and>
   (\<exists>w'.
      generate_asset_manifest demo_libs [''out''] (world0 tree6) = (True, w') \<and>
      read_file (tree w') [''out'', ''manifest.json'']
        = Some (json_dump demo_libs (manifest_of
             [JObject [(''path'', JString ''a'')], JObject [(''path'', JString ''sub/b'')]])) \<and>
      stdout w' = [ErrorReadingMetadata [''out'', ''bad.json''],
                   GeneratedManifest [''out'', ''manifest.json'']])"
proof -
  have h1: "is_dir (tree (world0 tree6)) [''out'']"
    by (simp add: tree6_def world0_def is_dir_def)
  have h2: "\<not> is_dir (tree (world0 tree6)) ([''out''] @ [''manifest.json''])"
    by (simp add: tree6_def world0_def is_dir_def)
  have src: "manifest_sources (tree (world0 tree6)) [''out'']
     = [[''out'', ''a.json''], [''out'', ''bad.json''], [''out'', ''sub'', ''b.json'']]"
    by (simp add: tree6_def world0_def manifest_sources_def fs_eval path_eval suffix_to_prefix)
  have r: "read_file (tree (world0 tree6)) [''out'', ''bad.json''] = Some ''not json''"
    by (simp add: tree6_def world0_def read_file_def)
  have l: "json_load demo_libs ''not json'' = None"
    by (simp add: demo_libs_def)
  have recs: "List.map_filter (asset_record demo_libs (tree (world0 tree6)) [''out''])
                [[''out'', ''a.json''], [''out'', ''bad.json''], [''out'', ''sub'', ''b.json'']]
              = [JObject [(''path'', JString ''a'')], JObject [(''path'', JString ''sub/b'')]]"
    by (simp add: tree6_def world0_def demo_libs_def asset_record_def parsed_record_def
        asset_path_def read_file_def name_suffix_def rfind_dot_def List.map_filter_simps)
  have errs: "filter (\<lambda>m. parsed_record demo_libs (tree (world0 tree6)) m = None)
                [[''out'', ''a.json''], [''out'', ''bad.json''], [''out'', ''sub'', ''b.json'']]
              = [[''out'', ''bad.json'']]"
    by (simp add: tree6_def world0_def demo_libs_def parsed_record_def read_file_def)
  have out: "stdout (world0 tree6) = []"
    by (simp add: world0_def)
  obtain w' where
    "generate_asset_manifest demo_libs [''out''] (world0 tree6) = (True, w')"
    "read_file (tree w') ([''out''] @ [''manifest.json''])
       = Some (json_dump demo_libs (manifest_of
            (List.map_filter (asset_record demo_libs (tree (world0 tree6)) [''out''])
               (manifest_sources (tree (world0 tree6)) [''out'']))))"
    "stdout w' = stdout (world0 tree6) @
        map ErrorReadingMetadata
          (filter (\<lambda>m. parsed_record demo_libs (tree (world0 tree6)) m = None)
             (manifest_sources (tree (world0 tree6)) [''out'']))
        @ [GeneratedManifest ([''out''] @ [''manifest.json''])]"
    using parse_failure_is_not_fatal [OF h1 h2, where L = demo_libs]
    by (elim exE conjE) (rule that; assumption)
  then have "generate_asset_manifest demo_libs [''out''] (world0 tree6) = (True, w') \<and>
      read_file (tree w') [''out'', ''manifest.json'']
        = Some (json_dump demo_libs (manifest_of
             [JObject [(''path'', JString ''a'')], JObject [(''path'', JString ''sub/b'')]])) \<and>
      stdout w' = [ErrorReadingMetadata [''out'', ''bad.json''],
                   GeneratedManifest [''out'', ''manifest.json'']]"
    unfolding src recs errs out by simp
  then have "\<exists>w'. generate_asset_manifest demo_libs [''out''] (world0 tree6) = (True, w') \<and>
      read_file (tree w') [''out'', ''manifest.json'']
        = Some (json_dump demo_libs (manifest_of
             [JObject [(''path'', JString ''a'')], JObject [(''path'', JString ''sub/b'')]])) \<and>
      stdout w' = [ErrorReadingMetadata [''out'', ''bad.json''],
                   GeneratedManifest [''out'', ''manifest.json'']]"
    by (rule exI [of _ w'])
  with h1 h2 src r l show ?thesis
    by (intro conjI)
qed

lemma manifest_example:
  "List.map_filter (read_metadata demo_libs tree6 [''out'']) (manifest_sources tree6 [''out''])
     = [JObject [(''path'', JString ''a'')], JObject [(''path'', JString ''sub/b'')]] \<and>
   filter (\<lambda>m. read_metadata demo_libs tree6 [''out''] m = None) (manifest_sources tree6 [''out''])
     = [[''out'', ''bad.json'']]"
  by (simp add: tree6_def demo_libs_def manifest_eval fs_eval path_eval List.map_filter_simps)

end
